theory Spec2Isabelle
  imports Complex_Main "HOL-Library.Word" "HOL-Library.AList"
begin

unbundle bit_operations_syntax

section \<open>Values exchanged with the backing service\<close>

text \<open>
  Python strings are modelled as \<^typ>\<open>string\<close>. A payload value is arbitrary JSON
  (\<^verbatim>\<open>Any\<close> in the source); a Python \<^verbatim>\<open>dict\<close> is an association list with unique
  keys in insertion order. Floats are never computed on by the connector: they are
  carried as rationals.
\<close>

type_synonym pyfloat = rat

datatype json =
    JNull
  | JBool bool
  | JInt int
  | JFloat pyfloat
  | JString string
  | JArray "json list"
  | JObject "(string \<times> json) list"

type_synonym Metadata = "(string \<times> json) list"
type_synonym ArbitraryFilter = "(string \<times> json) list"
type_synonym vector = "pyfloat list"

text \<open>\<^verbatim>\<open>class Entry(BaseModel)\<close> and \<^verbatim>\<open>class BatchEntry(BaseModel)\<close>.\<close>

record Entry =
  content :: string
  metadata :: "Metadata option"

record BatchEntry = Entry +
  id' :: "string option"

text \<open>The exceptions that the connector raises itself, and whatever a collaborator raises.\<close>

datatype exn =
    AssertionError
  | IndexError
  | KeyError string
  | TypeError
  | ValidationError
  | ValueError
  | ServiceError string

datatype Distance = COSINE | EUCLID | DOT | MANHATTAN

datatype PayloadSchemaType =
  KEYWORD | INTEGER | FLOAT | BOOL | GEO | DATETIME | TEXT | UUID

record VectorParams =
  size' :: int
  distance :: Distance

datatype ExtendedPointId = IntId int | StrId string

record PointStruct =
  point_id :: ExtendedPointId
  point_vector :: "(string \<times> vector) list"
  point_payload :: "(string \<times> json) list"

text \<open>
  What the service returns: a \<^verbatim>\<open>Record\<close> from a scroll, a \<^verbatim>\<open>ScoredPoint\<close> (a record
  with a score) from a query. The payload may be absent.
\<close>

record Record =
  rec_id :: ExtendedPointId
  rec_payload :: "(string \<times> json) list option"

record ScoredPoint = Record +
  score :: pyfloat

section \<open>The collaborators\<close>

text \<open>
  The database client is a parameter: each method takes the state of the backing
  service and returns either an exception or a value, with the state it leaves behind.
  Nothing is assumed about it. \<^verbatim>\<open>collection_exists\<close> and \<^verbatim>\<open>query_points\<close> take an
  optional name, because \<^verbatim>\<open>search\<close> and \<^verbatim>\<open>hybrid_search\<close> pass the resolved name on
  without checking it.
\<close>

record 'db AsyncQdrantClient =
  collection_exists :: "string option \<Rightarrow> 'db \<Rightarrow> (exn + bool) \<times> 'db"
  create_collection :: "string \<Rightarrow> (string \<times> VectorParams) list \<Rightarrow> 'db \<Rightarrow> (exn + unit) \<times> 'db"
  create_payload_index :: "string \<Rightarrow> string \<Rightarrow> PayloadSchemaType \<Rightarrow> 'db \<Rightarrow> (exn + unit) \<times> 'db"
  upsert :: "string \<Rightarrow> PointStruct list \<Rightarrow> 'db \<Rightarrow> (exn + unit) \<times> 'db"
  query_points :: "string option \<Rightarrow> vector \<Rightarrow> string \<Rightarrow> int \<Rightarrow> ArbitraryFilter option \<Rightarrow>
     pyfloat option \<Rightarrow> (string \<times> json) list \<Rightarrow> 'db \<Rightarrow> (exn + ScoredPoint list) \<times> 'db"
  scroll :: "string \<Rightarrow> int \<Rightarrow> string option \<Rightarrow> ArbitraryFilter option \<Rightarrow> bool \<Rightarrow> bool \<Rightarrow>
     'db \<Rightarrow> (exn + Record list \<times> ExtendedPointId option) \<times> 'db"

text \<open>The embedding provider: a text-to-vector mapping that may raise.\<close>

record EmbeddingProvider =
  embed_documents :: "string list \<Rightarrow> exn + vector list"
  embed_query :: "string \<Rightarrow> exn + vector"
  get_vector_name :: string
  get_vector_size :: int

record 'db QdrantConnector =
  default_collection_name :: "string option"
  embedding_provider :: EmbeddingProvider
  client :: "'db AsyncQdrantClient"
  field_indexes :: "(string \<times> PayloadSchemaType) list option"

section \<open>Effects\<close>

text \<open>
  Every call that leaves the connector is recorded, in order, with the exception it
  raised if it raised one; so is every \<^verbatim>\<open>logger.error\<close>.
\<close>

datatype event =
    CollectionExists "string option"
  | CreateCollection string "(string \<times> VectorParams) list"
  | CreatePayloadIndex string string PayloadSchemaType
  | Upsert string "PointStruct list"
  | QueryPoints "string option" vector string int "ArbitraryFilter option" "pyfloat option"
      "(string \<times> json) list"
  | Scroll string int "string option" "ArbitraryFilter option" bool bool
  | EmbedDocuments "string list"
  | EmbedQuery string
  | Raised exn
  | LogError

text \<open>
  The world outside the connector: the backing service, the record of calls, and the
  operating system's random bytes (\<open>entropy k\<close> is the \<open>k\<close>-th draw of 16 bytes).
\<close>

record 'db world =
  db :: 'db
  trace :: "event list"
  entropy :: "nat \<Rightarrow> 128 word"
  draws :: nat

type_synonym ('db, 'a) io = "'db world \<Rightarrow> (exn + 'a) \<times> 'db world"

definition io_return :: "'a \<Rightarrow> ('db, 'a) io" where
  "io_return x w = (Inr x, w)"

definition io_raise :: "exn \<Rightarrow> ('db, 'a) io" where
  "io_raise e w = (Inl e, w)"

definition io_bind :: "('db, 'a) io \<Rightarrow> ('a \<Rightarrow> ('db, 'b) io) \<Rightarrow> ('db, 'b) io" where
  "io_bind m f w = (case m w of (Inl e, w') \<Rightarrow> (Inl e, w') | (Inr x, w') \<Rightarrow> f x w')"

text \<open>\<^verbatim>\<open>try: m except Exception as e: h e\<close>.\<close>

definition io_try :: "('db, 'a) io \<Rightarrow> (exn \<Rightarrow> ('db, 'a) io) \<Rightarrow> ('db, 'a) io" where
  "io_try m h w = (case m w of (Inl e, w') \<Rightarrow> h e w' | (Inr x, w') \<Rightarrow> (Inr x, w'))"

definition io_lift :: "exn + 'a \<Rightarrow> ('db, 'a) io" where
  "io_lift r w = (r, w)"

definition await_client :: "event \<Rightarrow> ('db \<Rightarrow> (exn + 'a) \<times> 'db) \<Rightarrow> ('db, 'a) io" where
  "await_client ev f w =
     (case f (db w) of
        (Inl e, s) \<Rightarrow> (Inl e, w\<lparr>db := s, trace := trace w @ [ev, Raised e]\<rparr>)
      | (Inr x, s) \<Rightarrow> (Inr x, w\<lparr>db := s, trace := trace w @ [ev]\<rparr>))"

definition await_provider :: "event \<Rightarrow> exn + 'a \<Rightarrow> ('db, 'a) io" where
  "await_provider ev r w =
     (case r of
        Inl e \<Rightarrow> (Inl e, w\<lparr>trace := trace w @ [ev, Raised e]\<rparr>)
      | Inr x \<Rightarrow> (Inr x, w\<lparr>trace := trace w @ [ev]\<rparr>))"

definition logger_error :: "('db, unit) io" where
  "logger_error w = (Inr (), w\<lparr>trace := trace w @ [LogError]\<rparr>)"

subsection \<open>\<^verbatim>\<open>uuid.uuid4().hex\<close>\<close>

definition hexdigit :: "nat \<Rightarrow> char" where
  "hexdigit n = ''0123456789abcdef'' ! (n mod 16)"

text \<open>\<^verbatim>\<open>'%032x' % self.int\<close>: 32 digits, the most significant first.\<close>

definition hex :: "128 word \<Rightarrow> string" where
  "hex x = map (\<lambda>i. hexdigit (unat (drop_bit (4 * i) x AND 15))) (rev [0..<32])"

text \<open>Sixteen random bytes with the variant (RFC 4122) and the version (4) written in.\<close>

definition uuid_of_bytes :: "128 word \<Rightarrow> 128 word" where
  "uuid_of_bytes x =
     (((x AND NOT (push_bit 48 0xc000)) OR push_bit 48 0x8000)
        AND NOT (push_bit 64 0xf000)) OR push_bit 76 4"

definition uuid4_hex :: "('db, string) io" where
  "uuid4_hex w = (Inr (hex (uuid_of_bytes (entropy w (draws w)))), w\<lparr>draws := draws w + 1\<rparr>)"

section \<open>Building and reading entries\<close>

text \<open>
  Constructing an \<^verbatim>\<open>Entry\<close> validates its fields: \<^verbatim>\<open>content: str\<close> takes a string
  only, \<^verbatim>\<open>metadata: dict[str, Any] | None\<close> a mapping or nothing.
\<close>

definition validate_content :: "json \<Rightarrow> exn + string" where
  "validate_content j = (case j of JString s \<Rightarrow> Inr s | _ \<Rightarrow> Inl ValidationError)"

definition validate_metadata :: "json option \<Rightarrow> exn + Metadata option" where
  "validate_metadata j =
     (case j of
        None \<Rightarrow> Inr None
      | Some JNull \<Rightarrow> Inr None
      | Some (JObject m) \<Rightarrow> Inr (Some m)
      | Some _ \<Rightarrow> Inl ValidationError)"

definition make_Entry :: "json \<Rightarrow> json option \<Rightarrow> exn + Entry" where
  "make_Entry c m =
     (case validate_content c of
        Inl e \<Rightarrow> Inl e
      | Inr s \<Rightarrow>
          (case validate_metadata m of
             Inl e \<Rightarrow> Inl e
           | Inr md \<Rightarrow> Inr \<lparr>content = s, metadata = md\<rparr>))"

definition metadata_json :: "Metadata option \<Rightarrow> json" where
  "metadata_json m = (case m of None \<Rightarrow> JNull | Some d \<Rightarrow> JObject d)"

text \<open>
  \<^verbatim>\<open>{"document": entry.content, METADATA_PATH: entry.metadata}\<close>. \<open>METADATA_PATH\<close> is
  imported from the settings module and is a parameter here (\<open>mp\<close>). A dict display
  that repeats a key keeps the position of the first and the value of the last.
\<close>

definition make_payload :: "string \<Rightarrow> string \<Rightarrow> Metadata option \<Rightarrow> (string \<times> json) list" where
  "make_payload mp c m = AList.update mp (metadata_json m) [(''document'', JString c)]"

text \<open>\<^verbatim>\<open>collection_name or self._default_collection_name\<close>: an empty string is falsy.\<close>

definition resolve_collection_name :: "string option \<Rightarrow> string option \<Rightarrow> string option" where
  "resolve_collection_name collection_name dflt =
     (case collection_name of
        None \<Rightarrow> dflt
      | Some n \<Rightarrow> if n = [] then dflt else Some n)"

section \<open>The connector\<close>

subsection \<open>\<^verbatim>\<open>_ensure_collection_exists\<close>\<close>

fun create_payload_indexes ::
  "'db QdrantConnector \<Rightarrow> string \<Rightarrow> (string \<times> PayloadSchemaType) list \<Rightarrow> ('db, unit) io" where
  "create_payload_indexes c n [] w = io_return () w"
| "create_payload_indexes c n ((field_name, field_type) # rest) w =
     io_bind
       (await_client (CreatePayloadIndex n field_name field_type)
          (create_payload_index (client c) n field_name field_type))
       (\<lambda>_. create_payload_indexes c n rest) w"

text \<open>\<^verbatim>\<open>if self._field_indexes:\<close> skips both \<^verbatim>\<open>None\<close> and the empty mapping.\<close>

definition apply_field_indexes :: "'db QdrantConnector \<Rightarrow> string \<Rightarrow> ('db, unit) io" where
  "apply_field_indexes c n =
     (case field_indexes c of
        None \<Rightarrow> io_return ()
      | Some idx \<Rightarrow> if idx = [] then io_return () else create_payload_indexes c n idx)"

definition ensure_collection_exists :: "'db QdrantConnector \<Rightarrow> string \<Rightarrow> ('db, unit) io" where
  "ensure_collection_exists c n =
     io_bind
       (await_client (CollectionExists (Some n)) (collection_exists (client c) (Some n)))
       (\<lambda>exists.
          if \<not> exists then
            (let vector_size = get_vector_size (embedding_provider c);
                 vector_name = get_vector_name (embedding_provider c);
                 cfg = [(vector_name, \<lparr>size' = vector_size, distance = COSINE\<rparr>)]
             in io_bind
                  (await_client (CreateCollection n cfg) (create_collection (client c) n cfg))
                  (\<lambda>_. apply_field_indexes c n))
          else io_return ())"

subsection \<open>\<^verbatim>\<open>store\<close>\<close>

text \<open>
  The arguments of the upsert are evaluated from left to right: the identifier is drawn
  before \<^verbatim>\<open>embeddings[0]\<close> is read.
\<close>

definition store ::
  "string \<Rightarrow> 'db QdrantConnector \<Rightarrow> Entry \<Rightarrow> string option \<Rightarrow> ('db, unit) io" where
  "store mp c entry collection_name =
     (case resolve_collection_name collection_name (default_collection_name c) of
        None \<Rightarrow> io_raise AssertionError
      | Some n \<Rightarrow>
          io_bind (ensure_collection_exists c n) (\<lambda>_.
          io_bind (await_provider (EmbedDocuments [content entry])
                     (embed_documents (embedding_provider c) [content entry])) (\<lambda>embeddings.
          let vector_name = get_vector_name (embedding_provider c);
              payload = make_payload mp (content entry) (metadata entry)
          in io_bind uuid4_hex (\<lambda>u.
             io_bind (io_lift (case embeddings of [] \<Rightarrow> Inl IndexError | v # _ \<Rightarrow> Inr v)) (\<lambda>v.
             let points = [\<lparr>point_id = StrId u, point_vector = [(vector_name, v)],
                            point_payload = payload\<rparr>]
             in await_client (Upsert n points) (upsert (client c) n points))))))"

subsection \<open>\<^verbatim>\<open>search\<close>\<close>

text \<open>
  \<^verbatim>\<open>Entry(content=result.payload["document"], metadata=result.payload.get(key))\<close>:
  subscripting an absent payload is a \<^verbatim>\<open>TypeError\<close>, a missing document a
  \<^verbatim>\<open>KeyError\<close>.
\<close>

definition payload_entry :: "string \<Rightarrow> ScoredPoint \<Rightarrow> exn + Entry" where
  "payload_entry key result =
     (case rec_payload result of
        None \<Rightarrow> Inl TypeError
      | Some p \<Rightarrow>
          (case map_of p ''document'' of
             None \<Rightarrow> Inl (KeyError ''document'')
           | Some d \<Rightarrow> make_Entry d (map_of p key)))"

fun search_entries :: "ScoredPoint list \<Rightarrow> exn + Entry list" where
  "search_entries [] = Inr []"
| "search_entries (result # rest) =
     (case payload_entry ''metadata'' result of
        Inl e \<Rightarrow> Inl e
      | Inr x \<Rightarrow> (case search_entries rest of Inl e \<Rightarrow> Inl e | Inr xs \<Rightarrow> Inr (x # xs)))"

definition search ::
  "'db QdrantConnector \<Rightarrow> string \<Rightarrow> string option \<Rightarrow> int \<Rightarrow> ArbitraryFilter option \<Rightarrow>
     ('db, Entry list) io" where
  "search c query collection_name limit query_filter =
     (let collection_name = resolve_collection_name collection_name (default_collection_name c)
      in io_bind
           (await_client (CollectionExists collection_name)
              (collection_exists (client c) collection_name))
           (\<lambda>exists.
              if \<not> exists then io_return []
              else
                io_bind (await_provider (EmbedQuery query)
                           (embed_query (embedding_provider c) query)) (\<lambda>query_vector.
                let vector_name = get_vector_name (embedding_provider c)
                in io_bind
                     (await_client
                        (QueryPoints collection_name query_vector vector_name limit query_filter
                           None [])
                        (query_points (client c) collection_name query_vector vector_name limit
                           query_filter None []))
                     (\<lambda>search_results. io_lift (search_entries search_results)))))"

subsection \<open>\<^verbatim>\<open>create_collection_with_config\<close>\<close>

text \<open>
  \<^verbatim>\<open>str.lower\<close> on the letters A to Z. No other character lowers to a letter of the
  four metric names, so the lookup below agrees with the source on every string.
\<close>

definition lower_char :: "char \<Rightarrow> char" where
  "lower_char ch =
     (let k = (of_char ch :: nat) in if 65 \<le> k \<and> k \<le> 90 then char_of (k + 32) else ch)"

definition lower :: "string \<Rightarrow> string" where
  "lower s = map lower_char s"



subsection \<open>\<^verbatim>\<open>batch_store\<close>\<close>

text \<open>\<^verbatim>\<open>point_id = entry.id or uuid.uuid4().hex\<close>: an empty identifier is falsy.\<close>

definition batch_point_id :: "BatchEntry \<Rightarrow> ('db, string) io" where
  "batch_point_id entry =
     (case id' entry of
        None \<Rightarrow> uuid4_hex
      | Some i \<Rightarrow> if i = [] then uuid4_hex else io_return i)"

fun build_points ::
  "string \<Rightarrow> string \<Rightarrow> (BatchEntry \<times> vector) list \<Rightarrow> PointStruct list \<Rightarrow>
     ('db, PointStruct list) io" where
  "build_points mp vector_name [] points w = io_return points w"
| "build_points mp vector_name ((entry, embedding) # rest) points w =
     io_bind (batch_point_id entry)
       (\<lambda>pid. build_points mp vector_name rest
          (points @ [\<lparr>point_id = StrId pid, point_vector = [(vector_name, embedding)],
                      point_payload = make_payload mp (content entry) (metadata entry)\<rparr>])) w"

definition batch_store_body ::
  "string \<Rightarrow> 'db QdrantConnector \<Rightarrow> BatchEntry list \<Rightarrow> string \<Rightarrow> ('db, nat) io" where
  "batch_store_body mp c entries n =
     (let documents = map content entries
      in io_bind (await_provider (EmbedDocuments documents)
                    (embed_documents (embedding_provider c) documents)) (\<lambda>embeddings.
         let vector_name = get_vector_name (embedding_provider c)
         in io_bind (build_points mp vector_name (zip entries embeddings) []) (\<lambda>points.
            io_bind (await_client (Upsert n points) (upsert (client c) n points)) (\<lambda>_.
            io_return (length points)))))"

definition batch_store ::
  "string \<Rightarrow> 'db QdrantConnector \<Rightarrow> BatchEntry list \<Rightarrow> string option \<Rightarrow> ('db, nat) io" where
  "batch_store mp c entries collection_name =
     (case resolve_collection_name collection_name (default_collection_name c) of
        None \<Rightarrow> io_raise AssertionError
      | Some n \<Rightarrow>
          io_bind (ensure_collection_exists c n) (\<lambda>_.
            io_try (batch_store_body mp c entries n)
              (\<lambda>e. io_bind logger_error (\<lambda>_. io_return 0))))"

subsection \<open>\<^verbatim>\<open>scroll_collection\<close>\<close>

fun str_nat :: "nat \<Rightarrow> string" where
  "str_nat n = (if n < 10 then [hexdigit n] else str_nat (n div 10) @ [hexdigit (n mod 10)])"

declare str_nat.simps [simp del]

definition str_int :: "int \<Rightarrow> string" where
  "str_int i = (if i < 0 then CHR ''-'' # str_nat (nat (- i)) else str_nat (nat i))"

definition str_id :: "ExtendedPointId \<Rightarrow> string" where
  "str_id p = (case p of IntId i \<Rightarrow> str_int i | StrId s \<Rightarrow> s)"

definition json_id :: "ExtendedPointId \<Rightarrow> json" where
  "json_id p = (case p of IntId i \<Rightarrow> JInt i | StrId s \<Rightarrow> JString s)"

text \<open>\<^verbatim>\<open>Entry(content=f"Point ID: {point.id}", metadata={"point_id": point.id})\<close>.\<close>

definition synthetic_entry :: "ExtendedPointId \<Rightarrow> Entry" where
  "synthetic_entry p =
     \<lparr>content = ''Point ID: '' @ str_id p, metadata = Some [(''point_id'', json_id p)]\<rparr>"

text \<open>\<^verbatim>\<open>if with_payload and point.payload:\<close> an absent and an empty payload are both falsy.\<close>

definition scroll_entry :: "string \<Rightarrow> bool \<Rightarrow> Record \<Rightarrow> exn + Entry" where
  "scroll_entry mp with_payload point =
     (case rec_payload point of
        None \<Rightarrow> Inr (synthetic_entry (rec_id point))
      | Some p \<Rightarrow>
          if with_payload \<and> p \<noteq> [] then
            make_Entry (case map_of p ''document'' of None \<Rightarrow> JString [] | Some d \<Rightarrow> d)
              (map_of p mp)
          else Inr (synthetic_entry (rec_id point)))"

fun scroll_entries :: "string \<Rightarrow> bool \<Rightarrow> Record list \<Rightarrow> Entry list \<Rightarrow> exn + Entry list" where
  "scroll_entries mp with_payload [] entries = Inr entries"
| "scroll_entries mp with_payload (point # rest) entries =
     (case scroll_entry mp with_payload point of
        Inl e \<Rightarrow> Inl e
      | Inr x \<Rightarrow> scroll_entries mp with_payload rest (entries @ [x]))"

definition scroll_collection ::
  "string \<Rightarrow> 'db QdrantConnector \<Rightarrow> string option \<Rightarrow> int \<Rightarrow> string option \<Rightarrow>
     ArbitraryFilter option \<Rightarrow> bool \<Rightarrow> bool \<Rightarrow>
     ('db, Entry list \<times> ExtendedPointId option) io" where
  "scroll_collection mp c collection_name limit offset query_filter with_payload with_vectors =
     (case resolve_collection_name collection_name (default_collection_name c) of
        None \<Rightarrow> io_raise AssertionError
      | Some n \<Rightarrow>
          io_bind
            (await_client (CollectionExists (Some n)) (collection_exists (client c) (Some n)))
            (\<lambda>exists.
               if \<not> exists then io_return ([], None)
               else
                 io_try
                   (io_bind
                      (await_client (Scroll n limit offset query_filter with_payload with_vectors)
                         (scroll (client c) n limit offset query_filter with_payload
                            with_vectors)) (\<lambda>result.
                    io_bind (io_lift (scroll_entries mp with_payload (fst result) []))
                      (\<lambda>entries. io_return (entries, snd result))))
                   (\<lambda>e. io_bind logger_error (\<lambda>_. io_return ([], None)))))"

subsection \<open>\<^verbatim>\<open>hybrid_search\<close>\<close>

text \<open>
  \<^verbatim>\<open>**params\<close> after the named arguments: a key that repeats one of them is a
  \<^verbatim>\<open>TypeError\<close> at the call, before the client runs.
\<close>

definition query_keywords :: "string list" where
  "query_keywords =
     [''collection_name'', ''query'', ''using'', ''limit'', ''query_filter'', ''score_threshold'']"

fun hybrid_results ::
  "string \<Rightarrow> ScoredPoint list \<Rightarrow> (Entry \<times> pyfloat) list \<Rightarrow> exn + (Entry \<times> pyfloat) list" where
  "hybrid_results mp [] results = Inr results"
| "hybrid_results mp (result # rest) results =
     (case payload_entry mp result of
        Inl e \<Rightarrow> Inl e
      | Inr entry \<Rightarrow> hybrid_results mp rest (results @ [(entry, score result)]))"

definition hybrid_search ::
  "string \<Rightarrow> 'db QdrantConnector \<Rightarrow> string \<Rightarrow> string option \<Rightarrow> int \<Rightarrow> ArbitraryFilter option \<Rightarrow>
     pyfloat option \<Rightarrow> (string \<times> json) list option \<Rightarrow> ('db, (Entry \<times> pyfloat) list) io" where
  "hybrid_search mp c query collection_name limit query_filter min_score search_params =
     (let collection_name = resolve_collection_name collection_name (default_collection_name c)
      in io_bind
           (await_client (CollectionExists collection_name)
              (collection_exists (client c) collection_name))
           (\<lambda>exists.
              if \<not> exists then io_return []
              else
                io_try
                  (io_bind (await_provider (EmbedQuery query)
                              (embed_query (embedding_provider c) query)) (\<lambda>query_vector.
                   let vector_name = get_vector_name (embedding_provider c);
                       params = (case search_params of None \<Rightarrow> [] | Some p \<Rightarrow> p)
                   in io_bind
                        (if \<exists>k \<in> set (map fst params). k \<in> set query_keywords
                         then io_raise TypeError
                         else await_client
                                (QueryPoints collection_name query_vector vector_name limit
                                   query_filter min_score params)
                                (query_points (client c) collection_name query_vector vector_name
                                   limit query_filter min_score params))
                        (\<lambda>search_results. io_lift (hybrid_results mp search_results []))))
                  (\<lambda>e. io_bind logger_error (\<lambda>_. io_return []))))"

section \<open>A reference backing service\<close>

text \<open>
  The concrete instances need a service. This one keeps its collections in memory, in
  the manner of the client's local mode. A missing name and the empty name are refused
  with a \<^verbatim>\<open>ValueError\<close>; creating an existing collection and writing to a missing
  one are refused. A point identifier is an integer or a UUID, and a UUID is kept in
  its dashed form; an upsert writes its points one after the other and replaces the
  point of the same identifier. A query ranks the points that pass the filter by
  descending score and cuts at the limit. A scroll pages through the points in the
  order of their identifiers, the integers first. How points are scored and what a
  filter admits are parameters. No theorem about the connector assumes this service.
\<close>

record Collection =
  vectors_config :: "(string \<times> VectorParams) list"
  payload_schema :: "(string \<times> PayloadSchemaType) list"
  points :: "PointStruct list"

type_synonym service = "(string \<times> Collection) list"

definition local_collection_exists :: "string option \<Rightarrow> service \<Rightarrow> (exn + bool) \<times> service" where
  "local_collection_exists name s =
     (case name of
        None \<Rightarrow> (Inl ValueError, s)
      | Some n \<Rightarrow> if n = [] then (Inl ValueError, s) else (Inr (map_of s n \<noteq> None), s))"

definition local_create_collection ::
  "string \<Rightarrow> (string \<times> VectorParams) list \<Rightarrow> service \<Rightarrow> (exn + unit) \<times> service" where
  "local_create_collection n cfg s =
     (if n = [] then (Inl ValueError, s)
      else
        (case map_of s n of
           Some _ \<Rightarrow> (Inl (ServiceError ''collection already exists''), s)
         | None \<Rightarrow> (Inr (), s @ [(n, \<lparr>vectors_config = cfg, payload_schema = [], points = []\<rparr>)])))"

definition local_create_payload_index ::
  "string \<Rightarrow> string \<Rightarrow> PayloadSchemaType \<Rightarrow> service \<Rightarrow> (exn + unit) \<times> service" where
  "local_create_payload_index n field_name field_schema s =
     (case map_of s n of
        None \<Rightarrow> (Inl (ServiceError ''collection not found''), s)
      | Some col \<Rightarrow>
          (Inr (),
           AList.update n
             (col\<lparr>payload_schema := AList.update field_name field_schema (payload_schema col)\<rparr>)
             s))"

text \<open>
  A UUID as the service reads it: 32 hexadecimal digits, with or without dashes. It
  is kept as \<^verbatim>\<open>str(uuid.UUID(id))\<close> writes it.
\<close>

definition is_hex_digit :: "char \<Rightarrow> bool" where
  "is_hex_digit ch =
     (let k = (of_char ch :: nat)
      in 48 \<le> k \<and> k \<le> 57 \<or> 65 \<le> k \<and> k \<le> 70 \<or> 97 \<le> k \<and> k \<le> 102)"

definition uuid_digits :: "string \<Rightarrow> string" where
  "uuid_digits s = filter (\<lambda>ch. ch \<noteq> CHR ''-'') s"

definition is_uuid :: "string \<Rightarrow> bool" where
  "is_uuid s = (length (uuid_digits s) = 32 \<and> list_all is_hex_digit (uuid_digits s))"

definition dashed :: "string \<Rightarrow> string" where
  "dashed s =
     (let h = lower (uuid_digits s)
      in take 8 h @ ''-'' @ take 4 (drop 8 h) @ ''-'' @ take 4 (drop 12 h) @ ''-'' @
         take 4 (drop 16 h) @ ''-'' @ drop 20 h)"

definition stored_id :: "ExtendedPointId \<Rightarrow> exn + ExtendedPointId" where
  "stored_id p =
     (case p of
        IntId i \<Rightarrow> Inr (IntId i)
      | StrId s \<Rightarrow> if is_uuid s then Inr (StrId (dashed s)) else Inl ValueError)"

definition put_point :: "PointStruct \<Rightarrow> PointStruct list \<Rightarrow> PointStruct list" where
  "put_point p ps =
     (if point_id p \<in> set (map point_id ps)
      then map (\<lambda>q. if point_id q = point_id p then p else q) ps
      else ps @ [p])"

fun put_points :: "PointStruct list \<Rightarrow> PointStruct list \<Rightarrow> (exn + unit) \<times> PointStruct list" where
  "put_points [] held = (Inr (), held)"
| "put_points (p # ps) held =
     (case stored_id (point_id p) of
        Inl e \<Rightarrow> (Inl e, held)
      | Inr i \<Rightarrow> put_points ps (put_point (p\<lparr>point_id := i\<rparr>) held))"

definition local_upsert :: "string \<Rightarrow> PointStruct list \<Rightarrow> service \<Rightarrow> (exn + unit) \<times> service" where
  "local_upsert n ps s =
     (case map_of s n of
        None \<Rightarrow> (Inl (ServiceError ''collection not found''), s)
      | Some col \<Rightarrow>
          (case put_points ps (points col) of
             (r, held) \<Rightarrow> (r, AList.update n (col\<lparr>points := held\<rparr>) s)))"

definition scored ::
  "(string \<Rightarrow> vector \<Rightarrow> PointStruct \<Rightarrow> pyfloat) \<Rightarrow> string \<Rightarrow> vector \<Rightarrow> PointStruct \<Rightarrow> ScoredPoint" where
  "scored scorer using qv p =
     \<lparr>rec_id = point_id p, rec_payload = Some (point_payload p), score = scorer using qv p\<rparr>"

definition admits :: "(ArbitraryFilter \<Rightarrow> PointStruct \<Rightarrow> bool) \<Rightarrow> ArbitraryFilter option \<Rightarrow> PointStruct \<Rightarrow> bool" where
  "admits matches flt p = (case flt of None \<Rightarrow> True | Some f \<Rightarrow> matches f p)"

definition local_query_points ::
  "(string \<Rightarrow> vector \<Rightarrow> PointStruct \<Rightarrow> pyfloat) \<Rightarrow> (ArbitraryFilter \<Rightarrow> PointStruct \<Rightarrow> bool) \<Rightarrow>
     string option \<Rightarrow> vector \<Rightarrow> string \<Rightarrow> int \<Rightarrow> ArbitraryFilter option \<Rightarrow> pyfloat option \<Rightarrow>
     (string \<times> json) list \<Rightarrow> service \<Rightarrow> (exn + ScoredPoint list) \<times> service" where
  "local_query_points scorer matches name qv using limit flt threshold params s =
     (case name of
        None \<Rightarrow> (Inl ValueError, s)
      | Some n \<Rightarrow>
          (case map_of s n of
             None \<Rightarrow> (Inl (ServiceError ''collection not found''), s)
           | Some col \<Rightarrow>
               (let ranked = sort_key (\<lambda>r. - score r)
                               (map (scored scorer using qv) (filter (admits matches flt) (points col)));
                    kept = (case threshold of
                              None \<Rightarrow> ranked
                            | Some t \<Rightarrow> filter (\<lambda>r. t \<le> score r) ranked)
                in (Inr (take (nat limit) kept), s))))"

text \<open>
  The order of a scroll: identifiers compare as the pairs \<^verbatim>\<open>(id, 0)\<close> for a string
  and \<^verbatim>\<open>("", id)\<close> for an integer, strings by their code points.
\<close>

fun str_less :: "string \<Rightarrow> string \<Rightarrow> bool" where
  "str_less [] [] = False"
| "str_less [] (y # ys) = True"
| "str_less (x # xs) [] = False"
| "str_less (x # xs) (y # ys) =
     ((of_char x :: nat) < of_char y \<or> x = y \<and> str_less xs ys)"

definition universal_id :: "ExtendedPointId \<Rightarrow> string \<times> int" where
  "universal_id p = (case p of StrId s \<Rightarrow> (s, 0) | IntId i \<Rightarrow> ([], i))"

definition id_le :: "ExtendedPointId \<Rightarrow> ExtendedPointId \<Rightarrow> bool" where
  "id_le a b =
     (case (universal_id a, universal_id b) of
        ((s, i), (t, j)) \<Rightarrow> if s = t then i \<le> j else str_less s t)"

fun insert_by_id :: "PointStruct \<Rightarrow> PointStruct list \<Rightarrow> PointStruct list" where
  "insert_by_id p [] = [p]"
| "insert_by_id p (q # qs) =
     (if id_le (point_id p) (point_id q) then p # q # qs else q # insert_by_id p qs)"

definition sort_by_id :: "PointStruct list \<Rightarrow> PointStruct list" where
  "sort_by_id ps = foldr insert_by_id ps []"

definition local_scroll ::
  "(ArbitraryFilter \<Rightarrow> PointStruct \<Rightarrow> bool) \<Rightarrow> string \<Rightarrow> int \<Rightarrow> string option \<Rightarrow>
     ArbitraryFilter option \<Rightarrow> bool \<Rightarrow> bool \<Rightarrow> service \<Rightarrow>
     (exn + Record list \<times> ExtendedPointId option) \<times> service" where
  "local_scroll matches n limit offset flt with_payload with_vectors s =
     (case map_of s n of
        None \<Rightarrow> (Inl (ServiceError ''collection not found''), s)
      | Some col \<Rightarrow>
          (let admitted = filter (admits matches flt) (sort_by_id (points col));
               from_offset = (case offset of
                                None \<Rightarrow> admitted
                              | Some i \<Rightarrow> filter (\<lambda>p. id_le (StrId i) (point_id p)) admitted);
               page = take (nat limit) from_offset;
               next_offset = (case drop (nat limit) from_offset of
                                [] \<Rightarrow> None
                              | p # _ \<Rightarrow> Some (point_id p))
           in (Inr (map (\<lambda>p. \<lparr>rec_id = point_id p,
                                rec_payload = (if with_payload then Some (point_payload p) else None)\<rparr>)
                      page,
                    next_offset), s)))"

definition local_client ::
  "(string \<Rightarrow> vector \<Rightarrow> PointStruct \<Rightarrow> pyfloat) \<Rightarrow> (ArbitraryFilter \<Rightarrow> PointStruct \<Rightarrow> bool) \<Rightarrow>
     service AsyncQdrantClient" where
  "local_client scorer matches =
     \<lparr>collection_exists = local_collection_exists,
      create_collection = local_create_collection,
      create_payload_index = local_create_payload_index,
      upsert = local_upsert,
      query_points = local_query_points scorer matches,
      scroll = local_scroll matches\<rparr>"

section \<open>Concrete instances\<close>

text \<open>
  A provider that embeds a text as its length, one that fails every call, one that
  returns a vector for the first document only; a connector over the reference service.
\<close>

definition length_provider :: EmbeddingProvider where
  "length_provider =
     \<lparr>embed_documents = (\<lambda>docs. Inr (map (\<lambda>d. [of_nat (length d)]) docs)),
      embed_query = (\<lambda>q. Inr [of_nat (length q)]),
      get_vector_name = ''fast-all-minilm-l6-v2'',
      get_vector_size = 1\<rparr>"

definition failing_provider :: EmbeddingProvider where
  "failing_provider =
     \<lparr>embed_documents = (\<lambda>docs. Inl (ServiceError ''model not loaded'')),
      embed_query = (\<lambda>q. Inl (ServiceError ''model not loaded'')),
      get_vector_name = ''fast-all-minilm-l6-v2'',
      get_vector_size = 1\<rparr>"

definition short_provider :: EmbeddingProvider where
  "short_provider =
     \<lparr>embed_documents = (\<lambda>docs. Inr (map (\<lambda>d. [of_nat (length d)]) (take 1 docs))),
      embed_query = (\<lambda>q. Inr [of_nat (length q)]),
      get_vector_name = ''fast-all-minilm-l6-v2'',
      get_vector_size = 1\<rparr>"

definition closeness :: "string \<Rightarrow> vector \<Rightarrow> PointStruct \<Rightarrow> pyfloat" where
  "closeness using qv p =
     (case map_of (point_vector p) using of
        None \<Rightarrow> 0
      | Some v \<Rightarrow> - \<bar>sum_list v - sum_list qv\<bar>)"

definition reference_connector :: "service QdrantConnector" where
  "reference_connector =
     \<lparr>default_collection_name = None,
      embedding_provider = length_provider,
      client = local_client closeness (\<lambda>f p. True),
      field_indexes = Some [(''metadata.topic'', KEYWORD), (''metadata.year'', INTEGER)]\<rparr>"

text \<open>
  A world whose collection was written by another tool: one point without payload,
  one whose document is null.
\<close>

definition foreign_world :: "service world" where
  "foreign_world =
     \<lparr>db = [(''memories'',
             \<lparr>vectors_config = [(''fast-all-minilm-l6-v2'', \<lparr>size' = 1, distance = COSINE\<rparr>)],
              payload_schema = [],
              points =
                [\<lparr>point_id = IntId 7, point_vector = [(''fast-all-minilm-l6-v2'', [1])],
                  point_payload = []\<rparr>,
                 \<lparr>point_id = IntId 8, point_vector = [(''fast-all-minilm-l6-v2'', [2])],
                  point_payload = [(''document'', JNull)]\<rparr>]\<rparr>)],
      trace = [], entropy = (\<lambda>k. word_of_nat k), draws = 0\<rparr>"

text \<open>A world whose collection holds one point without payload and one written by \<^verbatim>\<open>store\<close>.\<close>

definition tidy_world :: "service world" where
  "tidy_world =
     \<lparr>db = [(''memories'',
             \<lparr>vectors_config = [(''fast-all-minilm-l6-v2'', \<lparr>size' = 1, distance = COSINE\<rparr>)],
              payload_schema = [],
              points =
                [\<lparr>point_id = IntId 7, point_vector = [(''fast-all-minilm-l6-v2'', [1])],
                  point_payload = []\<rparr>,
                 \<lparr>point_id = StrId ''00000000-0000-4000-8000-000000000000'',
                  point_vector = [(''fast-all-minilm-l6-v2'', [4])],
                  point_payload = [(''document'', JString ''kept''), (''metadata'', JNull)]\<rparr>]\<rparr>)],
      trace = [], entropy = (\<lambda>k. word_of_nat k), draws = 0\<rparr>"

definition fresh_world :: "service world" where
  "fresh_world = \<lparr>db = [], trace = [], entropy = (\<lambda>k. word_of_nat k), draws = 0\<rparr>"

section \<open>Reading the record of calls\<close>

text \<open>The events recorded between two worlds.\<close>

definition events_since :: "'db world \<Rightarrow> 'db world \<Rightarrow> event list" where
  "events_since w w' = drop (length (trace w)) (trace w')"

definition is_creation :: "event \<Rightarrow> bool" where
  "is_creation ev = (case ev of CreateCollection _ _ \<Rightarrow> True | _ \<Rightarrow> False)"

definition is_index_creation :: "event \<Rightarrow> bool" where
  "is_index_creation ev = (case ev of CreatePayloadIndex _ _ _ \<Rightarrow> True | _ \<Rightarrow> False)"

definition is_raised :: "event \<Rightarrow> bool" where
  "is_raised ev = (case ev of Raised _ \<Rightarrow> True | _ \<Rightarrow> False)"

text \<open>A call returned rather than raised.\<close>

definition returned :: "exn + 'a \<Rightarrow> bool" where
  "returned r = (case r of Inl _ \<Rightarrow> False | Inr _ \<Rightarrow> True)"

text \<open>The creation that the write paths issue for a missing collection.\<close>

definition provider_config :: "'db QdrantConnector \<Rightarrow> (string \<times> VectorParams) list" where
  "provider_config c =
     [(get_vector_name (embedding_provider c),
       \<lparr>size' = get_vector_size (embedding_provider c), distance = COSINE\<rparr>)]"

definition configured_indexes :: "'db QdrantConnector \<Rightarrow> (string \<times> PayloadSchemaType) list" where
  "configured_indexes c = (case field_indexes c of None \<Rightarrow> [] | Some idx \<Rightarrow> idx)"

definition index_events :: "string \<Rightarrow> (string \<times> PayloadSchemaType) list \<Rightarrow> event list" where
  "index_events n idx = map (\<lambda>(field_name, field_type). CreatePayloadIndex n field_name field_type) idx"

definition creation_events :: "'db QdrantConnector \<Rightarrow> string \<Rightarrow> event list" where
  "creation_events c n = CreateCollection n (provider_config c) # index_events n (configured_indexes c)"

definition reports_absent :: "'db QdrantConnector \<Rightarrow> string \<Rightarrow> 'db world \<Rightarrow> bool" where
  "reports_absent c n w = (fst (collection_exists (client c) (Some n) (db w)) = Inr False)"

text \<open>A computation lets through, unchanged, whatever a collaborator raises.\<close>

definition propagates :: "('db, 'a) io \<Rightarrow> bool" where
  "propagates m =
     (\<forall>w. \<exists>evs. trace (snd (m w)) = trace w @ evs \<and>
        (\<forall>x. Raised x \<in> set evs \<longrightarrow> fst (m w) = Inl x))"


definition is_admin :: "event \<Rightarrow> bool" where
  "is_admin ev = (is_creation ev \<or> is_index_creation ev)"


text \<open>
  A payload from which an \<^verbatim>\<open>Entry\<close> can be built: the document is a string or
  missing, the metadata a mapping, null or missing.
\<close>

definition entry_shaped :: "string \<Rightarrow> (string \<times> json) list \<Rightarrow> bool" where
  "entry_shaped mp p =
     ((case map_of p ''document'' of None \<Rightarrow> True | Some (JString _) \<Rightarrow> True | Some _ \<Rightarrow> False) \<and>
      (case map_of p mp of
         None \<Rightarrow> True
       | Some JNull \<Rightarrow> True
       | Some (JObject _) \<Rightarrow> True
       | Some _ \<Rightarrow> False))"

definition no_payload :: "Record \<Rightarrow> bool" where
  "no_payload p = (rec_payload p = None \<or> rec_payload p = Some [])"


text \<open>
  A point of a query answer from which \<^verbatim>\<open>search\<close> can build an \<^verbatim>\<open>Entry\<close>: it
  has a payload, the document is there and is a string, and what stands under the key
  \<^verbatim>\<open>"metadata"\<close> is a mapping, null or missing.
\<close>

definition search_readable :: "ScoredPoint \<Rightarrow> bool" where
  "search_readable r =
     (case rec_payload r of
        None \<Rightarrow> False
      | Some pl \<Rightarrow>
          (case map_of pl ''document'' of Some (JString _) \<Rightarrow> True | _ \<Rightarrow> False) \<and>
          (case map_of pl ''metadata'' of
             None \<Rightarrow> True
           | Some JNull \<Rightarrow> True
           | Some (JObject _) \<Rightarrow> True
           | Some _ \<Rightarrow> False))"

text \<open>
  What \<^verbatim>\<open>search\<close> makes of the payload that \<^verbatim>\<open>store\<close> wrote for an entry under the
  metadata key \<open>mp\<close>: the metadata comes back only if that key is \<^verbatim>\<open>"metadata"\<close>.
\<close>

definition read_back :: "string \<Rightarrow> Entry \<Rightarrow> Entry" where
  "read_back mp e =
     \<lparr>content = content e, metadata = (if mp = ''metadata'' then metadata e else None)\<rparr>"

text \<open>The point that \<^verbatim>\<open>batch_store\<close> builds for an entry and its embedding.\<close>

definition built_from :: "string \<Rightarrow> string \<Rightarrow> BatchEntry \<times> vector \<Rightarrow> PointStruct \<Rightarrow> bool" where
  "built_from mp vector_name z p =
     (case z of
        (entry, embedding) \<Rightarrow>
          point_vector p = [(vector_name, embedding)] \<and>
          point_payload p = make_payload mp (content entry) (metadata entry) \<and>
          point_id p \<noteq> StrId [] \<and>
          (case id' entry of None \<Rightarrow> True | Some i \<Rightarrow> i = [] \<or> point_id p = StrId i))"


section \<open>Basic facts\<close>

text \<open>Sequencing, the record of calls, and the length of a generated identifier.\<close>

lemmas admin_simps = is_admin_def is_creation_def is_index_creation_def

lemma events_since_append: "trace w' = trace w @ evs \<Longrightarrow> events_since w w' = evs"
  by (simp add: events_since_def)

lemma length_hex: "length (hex x) = 32"
  by (simp add: hex_def)

lemma hex_nonempty: "hex x \<noteq> []"
  using length_hex [of x] by auto

subsection \<open>Exceptions that pass through\<close>

lemma propagates_return: "propagates (io_return x)"
  by (simp add: propagates_def io_return_def)

lemma propagates_raise: "propagates (io_raise e)"
  by (simp add: propagates_def io_raise_def)

lemma propagates_lift: "propagates (io_lift r)"
  by (simp add: propagates_def io_lift_def)

lemma propagates_uuid4: "propagates uuid4_hex"
  by (simp add: propagates_def uuid4_hex_def)

lemma propagates_await_client: "\<not> is_raised ev \<Longrightarrow> propagates (await_client ev f)"
  unfolding propagates_def
proof
  assume ev: "\<not> is_raised ev"
  fix w
  show "\<exists>evs. trace (snd (await_client ev f w)) = trace w @ evs \<and>
          (\<forall>x. Raised x \<in> set evs \<longrightarrow> fst (await_client ev f w) = Inl x)"
  proof (cases "f (db w)")
    case (Pair r s)
    then show ?thesis
      using ev by (cases r) (auto simp: await_client_def is_raised_def)
  qed
qed

lemma propagates_await_provider: "\<not> is_raised ev \<Longrightarrow> propagates (await_provider ev r)"
  unfolding propagates_def
  by (cases r) (auto simp: await_provider_def is_raised_def)

lemma propagates_bind:
  assumes m: "propagates m" and f: "\<And>x. propagates (f x)"
  shows "propagates (io_bind m f)"
  unfolding propagates_def
proof
  fix w
  from m obtain evs1 where t1: "trace (snd (m w)) = trace w @ evs1"
    and r1: "\<And>x. Raised x \<in> set evs1 \<Longrightarrow> fst (m w) = Inl x"
    unfolding propagates_def by blast
  show "\<exists>evs. trace (snd (io_bind m f w)) = trace w @ evs \<and>
          (\<forall>x. Raised x \<in> set evs \<longrightarrow> fst (io_bind m f w) = Inl x)"
  proof (cases "fst (m w)")
    case (Inl e)
    then have "io_bind m f w = (Inl e, snd (m w))"
      by (cases "m w") (simp add: io_bind_def)
    with t1 r1 Inl show ?thesis by auto
  next
    case (Inr v)
    then have b: "io_bind m f w = f v (snd (m w))"
      by (cases "m w") (simp add: io_bind_def)
    from r1 Inr have none: "\<And>x. Raised x \<notin> set evs1" by fastforce
    from f [of v] obtain evs2 where t2: "trace (snd (f v (snd (m w)))) = trace (snd (m w)) @ evs2"
      and r2: "\<And>x. Raised x \<in> set evs2 \<Longrightarrow> fst (f v (snd (m w))) = Inl x"
      unfolding propagates_def by blast
    have "trace (snd (io_bind m f w)) = trace w @ (evs1 @ evs2)"
      using b t1 t2 by simp
    moreover have "\<forall>x. Raised x \<in> set (evs1 @ evs2) \<longrightarrow> fst (io_bind m f w) = Inl x"
      using b none r2 by auto
    ultimately show ?thesis by blast
  qed
qed

lemma propagates_create_payload_indexes: "propagates (create_payload_indexes c n idx)"
proof (induction idx)
  case Nil
  have "create_payload_indexes c n [] = io_return ()" by (rule ext) simp
  then show ?case by (simp add: propagates_return)
next
  case (Cons a idx)
  obtain f t where a: "a = (f, t)" by (cases a)
  have "create_payload_indexes c n (a # idx) =
          io_bind (await_client (CreatePayloadIndex n f t) (create_payload_index (client c) n f t))
            (\<lambda>_. create_payload_indexes c n idx)"
    unfolding a by (rule ext) simp
  then show ?case
    using Cons.IH by (simp add: propagates_bind propagates_await_client is_raised_def)
qed

lemma propagates_apply_field_indexes: "propagates (apply_field_indexes c n)"
  by (simp add: apply_field_indexes_def propagates_return propagates_create_payload_indexes
      split: option.splits)

lemma propagates_ensure: "propagates (ensure_collection_exists c n)"
  unfolding ensure_collection_exists_def Let_def
  by (intro propagates_bind propagates_await_client)
     (simp_all add: propagates_return propagates_bind propagates_await_client
        propagates_apply_field_indexes is_raised_def)

lemma propagates_store: "propagates (store mp c entry cn)"
  unfolding store_def Let_def
  by (auto split: option.splits
      intro!: propagates_bind propagates_raise propagates_ensure propagates_await_provider
        propagates_uuid4 propagates_lift propagates_await_client
      simp: is_raised_def)

text \<open>
  Claim C7. Whenever the embedding provider or the database client raises during
  \<^verbatim>\<open>store\<close>, that very exception is the outcome of \<^verbatim>\<open>store\<close>: nothing is caught
  and nothing is put in its place. A \<^verbatim>\<open>store\<close> that returns has the unit value, so
  no collaborator raised on the way.
\<close>

theorem store_propagates:
  assumes "store mp c entry cn w = (r, w')"
      and "Raised x \<in> set (events_since w w')"
  shows "r = Inl x"
proof -
  from propagates_store [of mp c entry cn] obtain evs
    where t: "trace (snd (store mp c entry cn w)) = trace w @ evs"
      and r: "\<And>x. Raised x \<in> set evs \<Longrightarrow> fst (store mp c entry cn w) = Inl x"
    unfolding propagates_def by blast
  from t assms(1) have "events_since w w' = evs"
    by (simp add: events_since_append)
  with assms r show ?thesis by simp
qed

theorem store_propagates_witness:
  "Raised (ServiceError ''model not loaded'') \<in> set (events_since fresh_world
     (snd (store ''metadata'' (reference_connector\<lparr>embedding_provider := failing_provider\<rparr>)
        \<lparr>content = ''note'', metadata = None\<rparr> (Some ''memories'') fresh_world))) \<and>
   fst (store ''metadata'' (reference_connector\<lparr>embedding_provider := failing_provider\<rparr>)
        \<lparr>content = ''note'', metadata = None\<rparr> (Some ''memories'') fresh_world)
     = Inl (ServiceError ''model not loaded'')"
proof -
  let ?run = "store ''metadata'' (reference_connector\<lparr>embedding_provider := failing_provider\<rparr>)
        \<lparr>content = ''note'', metadata = None\<rparr> (Some ''memories'') fresh_world"
  have raised: "Raised (ServiceError ''model not loaded'') \<in> set (events_since fresh_world (snd ?run))"
    by code_simp
  have "?run = (fst ?run, snd ?run)" by simp
  from store_propagates [OF this raised] raised show ?thesis by simp
qed


section \<open>What \<^verbatim>\<open>_ensure_collection_exists\<close> records\<close>

lemma filter_index_events [simp]:
  "filter is_creation (index_events n idx) = []"
  by (induction idx) (auto simp: index_events_def is_creation_def)

lemma create_payload_indexes_events:
  "create_payload_indexes c n idx w = (r, w1) \<Longrightarrow>
     \<exists>k tail. trace w1 = trace w @ take k (index_events n idx) @ tail \<and>
       list_all (\<lambda>ev. \<not> is_admin ev) tail \<and> (returned r \<longrightarrow> k = length idx \<and> tail = [])"
proof (induction idx arbitrary: w)
  case Nil
  then have "trace w1 = trace w @ take 0 (index_events n []) @ []" and "returned r"
    by (auto simp: io_return_def returned_def)
  then show ?case by (intro exI [of _ 0] exI [of _ "[]"]) simp
next
  case (Cons a idx)
  obtain f t where a: "a = (f, t)" by (cases a)
  obtain r1 s where call: "create_payload_index (client c) n f t (db w) = (r1, s)"
    by (cases "create_payload_index (client c) n f t (db w)")
  show ?case
  proof (cases r1)
    case (Inl e)
    with Cons.prems a call
    have "trace w1 = trace w @ take 1 (index_events n (a # idx)) @ [Raised e]" and "\<not> returned r"
      by (auto simp: io_bind_def await_client_def index_events_def returned_def)
    then show ?thesis
      by (intro exI [of _ 1] exI [of _ "[Raised e]"]) (simp add: admin_simps)
  next
    case (Inr v)
    let ?w = "w\<lparr>db := s, trace := trace w @ [CreatePayloadIndex n f t]\<rparr>"
    from Cons.prems a call Inr have "create_payload_indexes c n idx ?w = (r, w1)"
      by (simp add: io_bind_def await_client_def)
    from Cons.IH [OF this] obtain k tail
      where t: "trace w1 = trace ?w @ take k (index_events n idx) @ tail"
        and q: "list_all (\<lambda>ev. \<not> is_admin ev) tail"
        and d: "returned r \<longrightarrow> k = length idx \<and> tail = []"
      by blast
    from t have "trace w1 = trace w @ take (Suc k) (index_events n (a # idx)) @ tail"
      by (simp add: a index_events_def)
    with q d show ?thesis
      by (intro exI [of _ "Suc k"] exI [of _ tail]) simp
  qed
qed

lemma apply_field_indexes_events:
  assumes "apply_field_indexes c n w = (r, w1)"
  shows "\<exists>k tail. trace w1 = trace w @ take k (index_events n (configured_indexes c)) @ tail \<and>
       list_all (\<lambda>ev. \<not> is_admin ev) tail \<and>
       (returned r \<longrightarrow> k = length (configured_indexes c) \<and> tail = [])"
proof (cases "configured_indexes c = []")
  case True
  with assms have "trace w1 = trace w @ take 0 (index_events n (configured_indexes c)) @ []"
    and "returned r"
    by (auto simp: apply_field_indexes_def configured_indexes_def io_return_def returned_def
        split: option.splits)
  with True show ?thesis by (intro exI [of _ 0] exI [of _ "[]"]) simp
next
  case False
  with assms have "create_payload_indexes c n (configured_indexes c) w = (r, w1)"
    by (auto simp: apply_field_indexes_def configured_indexes_def split: option.splits)
  then show ?thesis by (rule create_payload_indexes_events)
qed

lemma ensure_events:
  assumes run: "ensure_collection_exists c n w = (r, w1)"
  shows "\<exists>k tail. trace w1 = trace w @ CollectionExists (Some n) #
            (if reports_absent c n w
             then CreateCollection n (provider_config c) #
                    take k (index_events n (configured_indexes c))
             else []) @ tail \<and>
          list_all (\<lambda>ev. \<not> is_admin ev) tail \<and>
          (returned r \<longrightarrow> k = length (configured_indexes c) \<and> tail = [])"
proof -
  obtain r0 s where ex: "collection_exists (client c) (Some n) (db w) = (r0, s)"
    by (cases "collection_exists (client c) (Some n) (db w)")
  let ?w = "w\<lparr>db := s, trace := trace w @ [CollectionExists (Some n)]\<rparr>"
  let ?idx = "index_events n (configured_indexes c)"
  show ?thesis
  proof (cases r0)
    case (Inl e)
    with run ex have "trace w1 = trace w @ CollectionExists (Some n) # [] @ [Raised e]"
      and "\<not> returned r" and "\<not> reports_absent c n w"
      by (auto simp: ensure_collection_exists_def io_bind_def await_client_def returned_def
          reports_absent_def)
    then show ?thesis
      by (intro exI [of _ 0] exI [of _ "[Raised e]"]) (simp add: admin_simps)
  next
    case (Inr b)
    show ?thesis
    proof (cases b)
      case True
      with run ex Inr have "trace w1 = trace w @ CollectionExists (Some n) # [] @ []"
        and "\<not> reports_absent c n w"
        by (auto simp: ensure_collection_exists_def io_bind_def await_client_def io_return_def
            reports_absent_def)
      then show ?thesis
        by (intro exI [of _ "length (configured_indexes c)"] exI [of _ "[]"]) simp
    next
      case False
      with ex Inr have absent: "reports_absent c n w" by (simp add: reports_absent_def)
      obtain r2 s2 where cr: "create_collection (client c) n (provider_config c) s = (r2, s2)"
        by (cases "create_collection (client c) n (provider_config c) s")
      show ?thesis
      proof (cases r2)
        case (Inl e)
        with run ex \<open>r0 = Inr b\<close> False cr
        have "trace w1 = trace w @ CollectionExists (Some n) #
                (CreateCollection n (provider_config c) # take 0 ?idx) @ [Raised e]"
          and "\<not> returned r"
          by (auto simp: ensure_collection_exists_def io_bind_def await_client_def Let_def
              provider_config_def returned_def)
        with absent show ?thesis
          by (intro exI [of _ 0] exI [of _ "[Raised e]"]) (simp add: admin_simps)
      next
        case (Inr v)
        let ?w2 = "?w\<lparr>db := s2, trace := trace ?w @ [CreateCollection n (provider_config c)]\<rparr>"
        from run ex \<open>r0 = Inr b\<close> False cr Inr
        have "apply_field_indexes c n ?w2 = (r, w1)"
          by (simp add: ensure_collection_exists_def io_bind_def await_client_def Let_def
              provider_config_def)
        from apply_field_indexes_events [OF this] obtain k tail
          where t: "trace w1 = trace ?w2 @ take k ?idx @ tail"
            and q: "list_all (\<lambda>ev. \<not> is_admin ev) tail"
            and d: "returned r \<longrightarrow> k = length (configured_indexes c) \<and> tail = []"
          by blast
        from t absent have "trace w1 = trace w @ CollectionExists (Some n) #
            (if reports_absent c n w
             then CreateCollection n (provider_config c) # take k ?idx
             else []) @ tail"
          by simp
        with q d show ?thesis by blast
      qed
    qed
  qed
qed

section \<open>The batch loop and the block under \<^verbatim>\<open>try\<close>\<close>



text \<open>The block under \<^verbatim>\<open>try\<close>, with its handler.\<close>

lemma batch_try_embed_fails:
  assumes "embed_documents (embedding_provider c) (map content entries) = Inl e"
  shows "io_try (batch_store_body mp c entries n) (\<lambda>e. io_bind logger_error (\<lambda>_. io_return 0)) w
         = (Inr 0, w\<lparr>trace := trace w @ [EmbedDocuments (map content entries), Raised e, LogError]\<rparr>)"
  using assms
  by (simp add: io_try_def batch_store_body_def io_bind_def await_provider_def logger_error_def
      io_return_def)

section \<open>Events of one kind only\<close>
















section \<open>Batches and automatic creation\<close>

lemma batch_store_after_ensure:
  assumes "resolve_collection_name cn (default_collection_name c) = Some n"
      and "ensure_collection_exists c n w = (Inr u, w1)"
  shows "batch_store mp c entries cn w =
           io_try (batch_store_body mp c entries n) (\<lambda>e. io_bind logger_error (\<lambda>_. io_return 0)) w1"
  using assms by (simp add: batch_store_def io_bind_def)






lemma io_bind_Inr_elim:
  assumes "io_bind m f w = (Inr y, w')"
  obtains x w1 where "m w = (Inr x, w1)" and "f x w1 = (Inr y, w')"
proof -
  obtain r w1 where mw: "m w = (r, w1)" by (cases "m w")
  with assms that show thesis
    by (cases r) (simp_all add: io_bind_def)
qed








section \<open>Names that do not resolve, collections that do not exist\<close>

text \<open>
  Claim C2. With no collection name from the caller and none from the connector,
  \<^verbatim>\<open>store\<close>, \<^verbatim>\<open>batch_store\<close> and \<^verbatim>\<open>scroll_collection\<close> fail on their assertion with
  the world untouched. \<^verbatim>\<open>search\<close> and \<^verbatim>\<open>hybrid_search\<close> have no assertion: the
  first thing either does is to ask the service whether the collection \<^verbatim>\<open>None\<close>
  exists, and the outcome of the call is whatever the service makes of that.
\<close>

theorem unresolved_name_outcomes:
  "store mp (c\<lparr>default_collection_name := None\<rparr>) entry None w = (Inl AssertionError, w) \<and>
   batch_store mp (c\<lparr>default_collection_name := None\<rparr>) entries None w = (Inl AssertionError, w) \<and>
   scroll_collection mp (c\<lparr>default_collection_name := None\<rparr>) None limit offset query_filter
       with_payload with_vectors w = (Inl AssertionError, w) \<and>
   take (Suc (length (trace w)))
     (trace (snd (search (c\<lparr>default_collection_name := None\<rparr>) query None limit query_filter w)))
     = trace w @ [CollectionExists None] \<and>
   take (Suc (length (trace w)))
     (trace (snd (hybrid_search mp (c\<lparr>default_collection_name := None\<rparr>) query None limit
         query_filter min_score search_params w)))
     = trace w @ [CollectionExists None]"
proof -
  have r: "resolve_collection_name None None = None"
    by (simp add: resolve_collection_name_def)
  have "store mp (c\<lparr>default_collection_name := None\<rparr>) entry None w = (Inl AssertionError, w)"
    by (simp add: store_def r io_raise_def)
  moreover have "batch_store mp (c\<lparr>default_collection_name := None\<rparr>) entries None w
      = (Inl AssertionError, w)"
    by (simp add: batch_store_def r io_raise_def)
  moreover have "scroll_collection mp (c\<lparr>default_collection_name := None\<rparr>) None limit offset
      query_filter with_payload with_vectors w = (Inl AssertionError, w)"
    by (simp add: scroll_collection_def r io_raise_def)
  moreover have "take (Suc (length (trace w)))
     (trace (snd (search (c\<lparr>default_collection_name := None\<rparr>) query None limit query_filter w)))
     = trace w @ [CollectionExists None]"
    by (simp add: search_def r io_bind_def await_client_def io_return_def
      await_provider_def io_lift_def Let_def split: prod.splits sum.splits)
  moreover have "take (Suc (length (trace w)))
     (trace (snd (hybrid_search mp (c\<lparr>default_collection_name := None\<rparr>) query None limit
         query_filter min_score search_params w)))
     = trace w @ [CollectionExists None]"
    by (simp add: hybrid_search_def r io_bind_def await_client_def
      io_return_def await_provider_def io_lift_def io_try_def logger_error_def io_raise_def Let_def
      split: prod.splits sum.splits)
  ultimately show ?thesis by blast
qed

theorem unresolved_name_outcomes_witness:
  "fst (search reference_connector ''anything'' None 10 None fresh_world) = Inl ValueError \<and>
   trace (snd (search reference_connector ''anything'' None 10 None fresh_world))
     = [CollectionExists None, Raised ValueError]"
proof -
  have c: "reference_connector\<lparr>default_collection_name := None\<rparr> = reference_connector"
    by (simp add: reference_connector_def)
  have t: "trace fresh_world = []" by (simp add: fresh_world_def)
  have r: "drop 1 (trace (snd (search reference_connector ''anything'' None 10 None fresh_world)))
      = [Raised ValueError]"
    by code_simp
  have "fst (search reference_connector ''anything'' None 10 None fresh_world) = Inl ValueError"
    by code_simp
  moreover have "take 1 (trace (snd (search reference_connector ''anything'' None 10 None fresh_world)))
      = [CollectionExists None]"
    using unresolved_name_outcomes [of "''metadata''" reference_connector _ fresh_world _ 10 None None
        True False "''anything''" None None]
    unfolding c t by simp
  then have "trace (snd (search reference_connector ''anything'' None 10 None fresh_world))
      = [CollectionExists None, Raised ValueError]"
    using r append_take_drop_id [of 1 "trace (snd (search reference_connector ''anything'' None 10 None
        fresh_world))"]
    by simp
  ultimately show ?thesis by simp
qed

text \<open>
  Claim C4. When the service answers that the resolved collection does not exist,
  \<^verbatim>\<open>search\<close> and \<^verbatim>\<open>hybrid_search\<close> return the empty list and \<^verbatim>\<open>scroll_collection\<close>
  returns the empty list with no cursor. None of them raises, and the existence check is
  the only call recorded: no embedding, no query, no scroll.
\<close>

theorem absent_collection_reads:
  assumes "resolve_collection_name cn (default_collection_name c) = Some n"
      and "collection_exists (client c) (Some n) (db w) = (Inr False, s)"
  shows "search c query cn limit query_filter w
           = (Inr [], w\<lparr>db := s, trace := trace w @ [CollectionExists (Some n)]\<rparr>) \<and>
         hybrid_search mp c query cn limit query_filter min_score search_params w
           = (Inr [], w\<lparr>db := s, trace := trace w @ [CollectionExists (Some n)]\<rparr>) \<and>
         scroll_collection mp c cn limit' offset query_filter with_payload with_vectors w
           = (Inr ([], None), w\<lparr>db := s, trace := trace w @ [CollectionExists (Some n)]\<rparr>)"
  using assms
  by (simp add: search_def hybrid_search_def scroll_collection_def io_bind_def await_client_def
      io_return_def Let_def)

theorem absent_collection_reads_witness:
  "fst (search reference_connector ''anything'' (Some ''memories'') 10 None fresh_world) = Inr [] \<and>
   fst (hybrid_search ''metadata'' reference_connector ''anything'' (Some ''memories'') 10 None None None
          fresh_world) = Inr [] \<and>
   fst (scroll_collection ''metadata'' reference_connector (Some ''memories'') 100 None None True False
          fresh_world) = Inr ([], None) \<and>
   trace (snd (search reference_connector ''anything'' (Some ''memories'') 10 None fresh_world))
     = [CollectionExists (Some ''memories'')]"
proof -
  have n: "resolve_collection_name (Some ''memories'') (default_collection_name reference_connector)
             = Some ''memories''"
    by code_simp
  have e: "collection_exists (client reference_connector) (Some ''memories'') (db fresh_world)
             = (Inr False, [])"
    by code_simp
  from absent_collection_reads [OF n e, of "''anything''" 10 None "''metadata''" None None 100 None True False]
  show ?thesis by (simp add: fresh_world_def)
qed


section \<open>Administrative creation\<close>






section \<open>What a batch sends and counts\<close>

lemma batch_point_id_built:
  "\<exists>pid w'. batch_point_id entry w = (Inr pid, w') \<and> pid \<noteq> [] \<and>
     (case id' entry of None \<Rightarrow> True | Some i \<Rightarrow> i = [] \<or> pid = i) \<and>
     trace w' = trace w \<and> db w' = db w \<and> entropy w' = entropy w"
  using hex_nonempty
  by (simp add: batch_point_id_def uuid4_hex_def io_return_def split: option.splits)

lemma build_points_built:
  "\<exists>pts w'. build_points mp vn zs acc w = (Inr (acc @ pts), w') \<and>
     list_all2 (built_from mp vn) zs pts \<and>
     trace w' = trace w \<and> db w' = db w \<and> entropy w' = entropy w"
proof (induction zs arbitrary: acc w)
  case Nil
  have "build_points mp vn [] acc w = (Inr (acc @ []), w)"
    by (simp add: io_return_def)
  then show ?case by (intro exI [of _ "[]"] exI [of _ w]) simp
next
  case (Cons z zs)
  obtain entry embedding where z: "z = (entry, embedding)" by (cases z)
  from batch_point_id_built [of entry w] obtain pid w1
    where pid: "batch_point_id entry w = (Inr pid, w1)" and ne: "pid \<noteq> []"
      and given: "case id' entry of None \<Rightarrow> True | Some i \<Rightarrow> i = [] \<or> pid = i"
      and same1: "trace w1 = trace w" "db w1 = db w" "entropy w1 = entropy w"
    by blast
  let ?p = "\<lparr>point_id = StrId pid, point_vector = [(vn, embedding)],
             point_payload = make_payload mp (content entry) (metadata entry)\<rparr>"
  from Cons.IH [of "acc @ [?p]" w1] obtain pts w2
    where rest: "build_points mp vn zs (acc @ [?p]) w1 = (Inr ((acc @ [?p]) @ pts), w2)"
      and rel: "list_all2 (built_from mp vn) zs pts"
      and same2: "trace w2 = trace w1" "db w2 = db w1" "entropy w2 = entropy w1"
    by blast
  have "build_points mp vn (z # zs) acc w = (Inr (acc @ (?p # pts)), w2)"
    using pid rest by (simp add: z io_bind_def)
  moreover have "built_from mp vn z ?p"
    using ne given by (simp add: built_from_def z split: option.splits)
  with rel have "list_all2 (built_from mp vn) (z # zs) (?p # pts)" by simp
  ultimately show ?case
    using same1 same2 by (intro exI [of _ "?p # pts"] exI [of _ w2]) simp
qed

lemma batch_block_embedded:
  assumes "embed_documents (embedding_provider c) (map content entries) = Inr vs"
  shows "\<exists>pts w'. list_all2 (built_from mp (get_vector_name (embedding_provider c))) (zip entries vs) pts \<and>
           io_try (batch_store_body mp c entries n) (\<lambda>e. io_bind logger_error (\<lambda>_. io_return 0)) w
             = (case fst (upsert (client c) n pts (db w)) of
                  Inl e \<Rightarrow> Inr 0
                | Inr _ \<Rightarrow> Inr (length pts), w') \<and>
           db w' = snd (upsert (client c) n pts (db w)) \<and>
           trace w' = trace w @ EmbedDocuments (map content entries) # Upsert n pts #
              (case fst (upsert (client c) n pts (db w)) of
                 Inl e \<Rightarrow> [Raised e, LogError]
               | Inr _ \<Rightarrow> [])"
proof -
  let ?w = "w\<lparr>trace := trace w @ [EmbedDocuments (map content entries)]\<rparr>"
  from build_points_built [of mp "get_vector_name (embedding_provider c)" "zip entries vs" "[]" ?w]
  obtain pts w1 where bp: "build_points mp (get_vector_name (embedding_provider c)) (zip entries vs) [] ?w
       = (Inr pts, w1)"
    and rel: "list_all2 (built_from mp (get_vector_name (embedding_provider c))) (zip entries vs) pts"
    and same: "trace w1 = trace ?w" "db w1 = db ?w"
    by auto
  obtain r s where up: "upsert (client c) n pts (db w) = (r, s)"
    by (cases "upsert (client c) n pts (db w)")
  show ?thesis
  proof (cases r)
    case (Inl e)
    let ?w' = "w1\<lparr>db := s, trace := trace w1 @ [Upsert n pts, Raised e],
                 trace := (trace w1 @ [Upsert n pts, Raised e]) @ [LogError]\<rparr>"
    have "io_try (batch_store_body mp c entries n) (\<lambda>e. io_bind logger_error (\<lambda>_. io_return 0)) w
            = (Inr 0, ?w')"
      using assms bp up Inl same
      by (simp add: io_try_def batch_store_body_def io_bind_def await_provider_def
        await_client_def logger_error_def io_return_def)
    with rel up Inl same show ?thesis
      by (intro exI [of _ pts] exI [of _ ?w']) simp
  next
    case (Inr u)
    let ?w' = "w1\<lparr>db := s, trace := trace w1 @ [Upsert n pts]\<rparr>"
    have "io_try (batch_store_body mp c entries n) (\<lambda>e. io_bind logger_error (\<lambda>_. io_return 0)) w
            = (Inr (length pts), ?w')"
      using assms bp up Inr same
      by (simp add: io_try_def batch_store_body_def io_bind_def await_provider_def
        await_client_def logger_error_def io_return_def)
    with rel up Inr same show ?thesis
      by (intro exI [of _ pts] exI [of _ ?w']) simp
  qed
qed

text \<open>
  Claim C3, amended. With a resolvable collection name and the collection ensured,
  \<^verbatim>\<open>batch_store\<close> does not raise. When the embedding call raises it returns zero, logs
  the failure and sends nothing. Otherwise it issues one upsert, of one point for each
  pair of an entry and a returned vector, each with the entry's payload and vector and
  under the entry's identifier or a generated one; it returns zero, with the failure
  logged, when that upsert raises, and the number of points sent when it succeeds: the
  smaller of the number of entries and the number of vectors returned.
\<close>

theorem batch_store_count:
  assumes name: "resolve_collection_name cn (default_collection_name c) = Some n"
      and ens: "ensure_collection_exists c n w = (Inr (), w1)"
      and run: "batch_store mp c entries cn w = (r, w2)"
  shows "case embed_documents (embedding_provider c) (map content entries) of
           Inl e \<Rightarrow>
             r = Inr 0 \<and> db w2 = db w1 \<and>
             events_since w1 w2 = [EmbedDocuments (map content entries), Raised e, LogError]
         | Inr vs \<Rightarrow>
             (\<exists>pts. list_all2 (built_from mp (get_vector_name (embedding_provider c)))
                      (zip entries vs) pts \<and>
                db w2 = snd (upsert (client c) n pts (db w1)) \<and>
                (case fst (upsert (client c) n pts (db w1)) of
                   Inl e \<Rightarrow>
                     r = Inr 0 \<and>
                     events_since w1 w2 =
                       [EmbedDocuments (map content entries), Upsert n pts, Raised e, LogError]
                 | Inr _ \<Rightarrow>
                     r = Inr (min (length entries) (length vs)) \<and>
                     events_since w1 w2 = [EmbedDocuments (map content entries), Upsert n pts]))"
proof -
  let ?block = "io_try (batch_store_body mp c entries n) (\<lambda>e. io_bind logger_error (\<lambda>_. io_return 0))"
  from batch_store_after_ensure [OF name ens] run have tr: "?block w1 = (r, w2)" by simp
  show ?thesis
  proof (cases "embed_documents (embedding_provider c) (map content entries)")
    case (Inl e)
    from batch_try_embed_fails [OF Inl, of mp n w1] tr
    have "r = Inr 0" and "db w2 = db w1"
      and "trace w2 = trace w1 @ [EmbedDocuments (map content entries), Raised e, LogError]"
      by auto
    then show ?thesis
      using Inl by (simp add: events_since_append)
  next
    case (Inr vs)
    from batch_block_embedded [OF Inr, of mp n w1] obtain pts w'
      where rel: "list_all2 (built_from mp (get_vector_name (embedding_provider c))) (zip entries vs) pts"
        and res: "?block w1 = (case fst (upsert (client c) n pts (db w1)) of
                  Inl e \<Rightarrow> Inr 0 | Inr _ \<Rightarrow> Inr (length pts), w')"
        and d: "db w' = snd (upsert (client c) n pts (db w1))"
        and t: "trace w' = trace w1 @ EmbedDocuments (map content entries) # Upsert n pts #
              (case fst (upsert (client c) n pts (db w1)) of
                 Inl e \<Rightarrow> [Raised e, LogError] | Inr _ \<Rightarrow> [])"
      by blast
    from res tr have r: "r = (case fst (upsert (client c) n pts (db w1)) of
                  Inl e \<Rightarrow> Inr 0 | Inr _ \<Rightarrow> Inr (length pts))"
      and w: "w2 = w'" by simp_all
    from rel have len: "length pts = min (length entries) (length vs)"
      by (simp add: list_all2_lengthD [symmetric])
    from t w have ev: "events_since w1 w2 = EmbedDocuments (map content entries) # Upsert n pts #
              (case fst (upsert (client c) n pts (db w1)) of
                 Inl e \<Rightarrow> [Raised e, LogError] | Inr _ \<Rightarrow> [])"
      by (simp add: events_since_append)
    have "db w2 = snd (upsert (client c) n pts (db w1)) \<and>
          (case fst (upsert (client c) n pts (db w1)) of
             Inl e \<Rightarrow>
               r = Inr 0 \<and>
               events_since w1 w2 =
                 [EmbedDocuments (map content entries), Upsert n pts, Raised e, LogError]
           | Inr _ \<Rightarrow>
               r = Inr (min (length entries) (length vs)) \<and>
               events_since w1 w2 = [EmbedDocuments (map content entries), Upsert n pts])"
      using r len ev d w by (cases "fst (upsert (client c) n pts (db w1))") simp_all
    with rel Inr show ?thesis by auto
  qed
qed

theorem batch_store_count_witness:
  "fst (batch_store ''metadata'' reference_connector
          [\<lparr>content = ''first'', metadata = None, id' = None\<rparr>,
           \<lparr>content = ''second'', metadata = Some [(''topic'', JString ''db'')],
            id' = Some ''123e4567-e89b-12d3-a456-426614174000''\<rparr>]
          (Some ''memories'') fresh_world) = Inr 2 \<and>
   fst (batch_store ''metadata'' (reference_connector\<lparr>embedding_provider := failing_provider\<rparr>)
          [\<lparr>content = ''first'', metadata = None, id' = None\<rparr>,
           \<lparr>content = ''second'', metadata = Some [(''topic'', JString ''db'')],
            id' = Some ''123e4567-e89b-12d3-a456-426614174000''\<rparr>]
          (Some ''memories'') fresh_world) = Inr 0"
proof -
  let ?es = "[\<lparr>content = ''first'', metadata = None, id' = None\<rparr>,
           \<lparr>content = ''second'', metadata = Some [(''topic'', JString ''db'')],
            id' = Some ''123e4567-e89b-12d3-a456-426614174000''\<rparr>]"
  let ?bad = "reference_connector\<lparr>embedding_provider := failing_provider\<rparr>"
  let ?e1 = "ensure_collection_exists reference_connector ''memories'' fresh_world"
  let ?e2 = "ensure_collection_exists ?bad ''memories'' fresh_world"
  let ?r1 = "batch_store ''metadata'' reference_connector ?es (Some ''memories'') fresh_world"
  let ?r2 = "batch_store ''metadata'' ?bad ?es (Some ''memories'') fresh_world"
  have n1: "resolve_collection_name (Some ''memories'') (default_collection_name reference_connector)
              = Some ''memories''"
    by code_simp
  have n2: "resolve_collection_name (Some ''memories'') (default_collection_name ?bad) = Some ''memories''"
    by code_simp
  have "fst ?e1 = Inr ()" by code_simp
  then have e1: "?e1 = (Inr (), snd ?e1)" by (metis prod.collapse)
  have "fst ?e2 = Inr ()" by code_simp
  then have e2: "?e2 = (Inr (), snd ?e2)" by (metis prod.collapse)
  have v1: "embed_documents (embedding_provider reference_connector) (map content ?es) = Inr [[5], [6]]"
    by (simp add: reference_connector_def length_provider_def)
  have v2: "embed_documents (embedding_provider ?bad) (map content ?es)
      = Inl (ServiceError ''model not loaded'')"
    by (simp add: failing_provider_def)
  have two: "length (events_since (snd ?e1) (snd ?r1)) = 2" by code_simp
  have "?r1 = (fst ?r1, snd ?r1)" by simp
  from batch_store_count [OF n1 e1 this] obtain pts
    where "case fst (upsert (client reference_connector) ''memories'' pts (db (snd ?e1))) of
             Inl e \<Rightarrow> fst ?r1 = Inr 0 \<and>
               events_since (snd ?e1) (snd ?r1) =
                 [EmbedDocuments (map content ?es), Upsert ''memories'' pts, Raised e, LogError]
           | Inr _ \<Rightarrow> fst ?r1 = Inr (min (length ?es) (length [[5 :: rat], [6]])) \<and>
               events_since (snd ?e1) (snd ?r1) = [EmbedDocuments (map content ?es), Upsert ''memories'' pts]"
    unfolding v1 by auto
  with two have a: "fst ?r1 = Inr 2"
    by (cases "fst (upsert (client reference_connector) ''memories'' pts (db (snd ?e1)))") simp_all
  have "?r2 = (fst ?r2, snd ?r2)" by simp
  from batch_store_count [OF n2 e2 this] have b: "fst ?r2 = Inr 0"
    unfolding v2 by simp
  from a b show ?thesis by simp
qed

text \<open>
  Claim C3 as stated fails with a provider that returns fewer vectors than documents:
  nothing raises, one point is sent for two entries, and the count is one.
\<close>

theorem batch_store_short_counterexample:
  "fst (batch_store ''metadata'' (reference_connector\<lparr>embedding_provider := short_provider\<rparr>)
          [\<lparr>content = ''first'', metadata = None, id' = None\<rparr>,
           \<lparr>content = ''second'', metadata = None, id' = None\<rparr>]
          (Some ''memories'') fresh_world) = Inr 1 \<and>
   filter is_raised (trace (snd (batch_store ''metadata''
          (reference_connector\<lparr>embedding_provider := short_provider\<rparr>)
          [\<lparr>content = ''first'', metadata = None, id' = None\<rparr>,
           \<lparr>content = ''second'', metadata = None, id' = None\<rparr>]
          (Some ''memories'') fresh_world))) = []"
  by code_simp

section \<open>Scrolling\<close>

lemma scroll_entry_no_payload:
  "no_payload p \<Longrightarrow> scroll_entry mp with_payload p = Inr (synthetic_entry (rec_id p))"
  by (auto simp: no_payload_def scroll_entry_def)

lemma make_Entry_shaped:
  "(\<exists>x. make_Entry (case map_of p ''document'' of None \<Rightarrow> JString [] | Some d \<Rightarrow> d)
          (map_of p mp) = Inr x) = entry_shaped mp p"
  by (auto simp: make_Entry_def validate_content_def validate_metadata_def entry_shaped_def
      split: option.splits json.splits sum.splits)

lemma scroll_entry_readable:
  "(\<exists>x. scroll_entry mp with_payload p = Inr x) =
     (with_payload \<longrightarrow> (\<forall>pl. rec_payload p = Some pl \<longrightarrow> entry_shaped mp pl))"
proof (cases "rec_payload p")
  case None
  then show ?thesis by (simp add: scroll_entry_def)
next
  case (Some pl)
  show ?thesis
  proof (cases "with_payload \<and> pl \<noteq> []")
    case True
    with Some make_Entry_shaped [of pl mp] show ?thesis
      by (simp add: scroll_entry_def)
  next
    case False
    have "entry_shaped mp []" by (simp add: entry_shaped_def)
    with False Some show ?thesis by (auto simp: scroll_entry_def)
  qed
qed

lemma scroll_entries_readable:
  assumes "\<forall>p \<in> set pts. with_payload \<longrightarrow> (\<forall>pl. rec_payload p = Some pl \<longrightarrow> entry_shaped mp pl)"
  shows "\<exists>es. scroll_entries mp with_payload pts acc = Inr (acc @ es) \<and>
           list_all2 (\<lambda>p e. scroll_entry mp with_payload p = Inr e) pts es"
  using assms
proof (induction pts arbitrary: acc)
  case Nil
  then show ?case by simp
next
  case (Cons p pts)
  from Cons.prems scroll_entry_readable [of mp with_payload p]
  obtain x where x: "scroll_entry mp with_payload p = Inr x" by auto
  from Cons.prems
  have "\<forall>p \<in> set pts. with_payload \<longrightarrow> (\<forall>pl. rec_payload p = Some pl \<longrightarrow> entry_shaped mp pl)"
    by simp
  from Cons.IH [OF this, of "acc @ [x]"] obtain es
    where "scroll_entries mp with_payload pts (acc @ [x]) = Inr ((acc @ [x]) @ es)"
      and "list_all2 (\<lambda>p e. scroll_entry mp with_payload p = Inr e) pts es"
    by blast
  with x have "scroll_entries mp with_payload (p # pts) acc = Inr (acc @ (x # es))"
    and "list_all2 (\<lambda>p e. scroll_entry mp with_payload p = Inr e) (p # pts) (x # es)"
    by simp_all
  then show ?case by blast
qed

lemma scroll_entries_unreadable:
  assumes "\<not> (\<forall>p \<in> set pts. with_payload \<longrightarrow> (\<forall>pl. rec_payload p = Some pl \<longrightarrow> entry_shaped mp pl))"
  shows "\<exists>e. scroll_entries mp with_payload pts acc = Inl e"
  using assms
proof (induction pts arbitrary: acc)
  case Nil
  then show ?case by simp
next
  case (Cons p pts)
  show ?case
  proof (cases "scroll_entry mp with_payload p")
    case (Inl e)
    then show ?thesis by simp
  next
    case (Inr x)
    with scroll_entry_readable [of mp with_payload p]
    have "with_payload \<longrightarrow> (\<forall>pl. rec_payload p = Some pl \<longrightarrow> entry_shaped mp pl)" by auto
    with Cons.prems
    have "\<not> (\<forall>p \<in> set pts. with_payload \<longrightarrow> (\<forall>pl. rec_payload p = Some pl \<longrightarrow> entry_shaped mp pl))"
      by auto
    from Cons.IH [OF this, of "acc @ [x]"] Inr show ?thesis by simp
  qed
qed

text \<open>
  Claim C9, amended. When the collection exists and the scroll call returns a page:
  if payloads were not asked for, or every payload on the page has the shape of an
  entry, \<^verbatim>\<open>scroll_collection\<close> returns as many entries as the page has points, with the
  cursor of the service, and the entry at the place of a point without payload is the
  synthetic one, with the identifier in its content and \<open>point_id\<close> in its metadata;
  otherwise it logs the failure and returns the empty list with no cursor.
\<close>

theorem scroll_keeps_every_point:
  assumes name: "resolve_collection_name cn (default_collection_name c) = Some n"
      and present: "collection_exists (client c) (Some n) (db w) = (Inr True, s1)"
      and page: "scroll (client c) n limit offset query_filter with_payload with_vectors s1
                   = (Inr (pts, next_offset), s2)"
  shows "if \<forall>p \<in> set pts. with_payload \<longrightarrow> (\<forall>pl. rec_payload p = Some pl \<longrightarrow> entry_shaped mp pl)
         then \<exists>es. fst (scroll_collection mp c cn limit offset query_filter with_payload with_vectors w)
                      = Inr (es, next_offset) \<and>
                length es = length pts \<and>
                (\<forall>i < length pts. no_payload (pts ! i) \<longrightarrow>
                   es ! i = synthetic_entry (rec_id (pts ! i)))
         else fst (scroll_collection mp c cn limit offset query_filter with_payload with_vectors w)
                = Inr ([], None) \<and>
              last (trace (snd (scroll_collection mp c cn limit offset query_filter with_payload
                with_vectors w))) = LogError"
proof (cases "\<forall>p \<in> set pts. with_payload \<longrightarrow> (\<forall>pl. rec_payload p = Some pl \<longrightarrow> entry_shaped mp pl)")
  case True
  from scroll_entries_readable [OF True, of "[]"] obtain es
    where es: "scroll_entries mp with_payload pts [] = Inr es"
      and rel: "list_all2 (\<lambda>p e. scroll_entry mp with_payload p = Inr e) pts es"
    by auto
  have "fst (scroll_collection mp c cn limit offset query_filter with_payload with_vectors w)
               = Inr (es, next_offset)"
    using name present page es
    by (simp add: scroll_collection_def io_bind_def io_try_def await_client_def io_lift_def
        io_return_def)
  moreover from rel have "length es = length pts"
    by (simp add: list_all2_lengthD)
  moreover have "\<forall>i < length pts. no_payload (pts ! i) \<longrightarrow> es ! i = synthetic_entry (rec_id (pts ! i))"
  proof (intro allI impI)
    fix i assume i: "i < length pts" and np: "no_payload (pts ! i)"
    from rel i have "scroll_entry mp with_payload (pts ! i) = Inr (es ! i)"
      by (rule list_all2_nthD)
    with scroll_entry_no_payload [OF np, of mp with_payload] show "es ! i = synthetic_entry (rec_id (pts ! i))"
      by simp
  qed
  ultimately show ?thesis unfolding if_P [OF True] by blast
next
  case False
  from scroll_entries_unreadable [OF False, of "[]"] obtain e
    where "scroll_entries mp with_payload pts [] = Inl e" by blast
  with name present page
  have "scroll_collection mp c cn limit offset query_filter with_payload with_vectors w
      = (Inr ([], None),
         w\<lparr>db := s2,
           trace := trace w @ [CollectionExists (Some n),
             Scroll n limit offset query_filter with_payload with_vectors, LogError]\<rparr>)"
    by (simp add: scroll_collection_def io_bind_def io_try_def await_client_def io_lift_def
        io_return_def logger_error_def)
  then have "fst (scroll_collection mp c cn limit offset query_filter with_payload with_vectors w)
                = Inr ([], None) \<and>
              last (trace (snd (scroll_collection mp c cn limit offset query_filter with_payload
                with_vectors w))) = LogError"
    by simp
  then show ?thesis unfolding if_not_P [OF False] .
qed

theorem scroll_keeps_every_point_witness:
  "(\<exists>es. fst (scroll_collection ''metadata'' reference_connector (Some ''memories'') 100 None None
               True False tidy_world) = Inr (es, None) \<and>
     length es = 2 \<and>
     es ! 0 = \<lparr>content = ''Point ID: 7'', metadata = Some [(''point_id'', JInt 7)]\<rparr>) \<and>
   fst (scroll_collection ''metadata'' reference_connector (Some ''memories'') 100 None None
               True False foreign_world) = Inr ([], None)"
proof -
  let ?pts = "[\<lparr>rec_id = IntId 7, rec_payload = Some []\<rparr>,
               \<lparr>rec_id = StrId ''00000000-0000-4000-8000-000000000000'',
                rec_payload = Some [(''document'', JString ''kept''), (''metadata'', JNull)]\<rparr>]"
  let ?bad = "[\<lparr>rec_id = IntId 7, rec_payload = Some []\<rparr>,
               \<lparr>rec_id = IntId 8, rec_payload = Some [(''document'', JNull)]\<rparr>]"
  have n: "resolve_collection_name (Some ''memories'') (default_collection_name reference_connector)
             = Some ''memories''"
    by code_simp
  have "fst (collection_exists (client reference_connector) (Some ''memories'') (db tidy_world)) = Inr True"
    and "snd (collection_exists (client reference_connector) (Some ''memories'') (db tidy_world)) = db tidy_world"
    by code_simp+
  then have e: "collection_exists (client reference_connector) (Some ''memories'') (db tidy_world)
      = (Inr True, db tidy_world)"
    by (metis prod.collapse)
  have "fst (scroll (client reference_connector) ''memories'' 100 None None True False (db tidy_world))
      = Inr (?pts, None)"
    by code_simp
  then have p: "scroll (client reference_connector) ''memories'' 100 None None True False (db tidy_world)
      = (Inr (?pts, None), snd (scroll (client reference_connector) ''memories'' 100 None None True False
           (db tidy_world)))"
    by (metis prod.collapse)
  have s: "\<forall>p \<in> set ?pts. True \<longrightarrow> (\<forall>pl. rec_payload p = Some pl \<longrightarrow> entry_shaped ''metadata'' pl)"
    by (simp add: entry_shaped_def)
  have np: "no_payload (?pts ! 0)" by (simp add: no_payload_def)
  have syn: "synthetic_entry (rec_id (?pts ! 0))
      = \<lparr>content = ''Point ID: 7'', metadata = Some [(''point_id'', JInt 7)]\<rparr>"
    by code_simp
  from scroll_keeps_every_point [OF n e p, of "''metadata''"] s obtain es
    where "fst (scroll_collection ''metadata'' reference_connector (Some ''memories'') 100 None None
               True False tidy_world) = Inr (es, None)"
      and "length es = length ?pts"
      and "\<forall>i < length ?pts. no_payload (?pts ! i) \<longrightarrow> es ! i = synthetic_entry (rec_id (?pts ! i))"
    by auto
  with np syn have good: "\<exists>es. fst (scroll_collection ''metadata'' reference_connector (Some ''memories'')
               100 None None True False tidy_world) = Inr (es, None) \<and>
     length es = 2 \<and>
     es ! 0 = \<lparr>content = ''Point ID: 7'', metadata = Some [(''point_id'', JInt 7)]\<rparr>"
    by (intro exI [of _ es]) auto
  have "fst (collection_exists (client reference_connector) (Some ''memories'') (db foreign_world)) = Inr True"
    and "snd (collection_exists (client reference_connector) (Some ''memories'') (db foreign_world))
      = db foreign_world"
    by code_simp+
  then have e': "collection_exists (client reference_connector) (Some ''memories'') (db foreign_world)
      = (Inr True, db foreign_world)"
    by (metis prod.collapse)
  have "fst (scroll (client reference_connector) ''memories'' 100 None None True False (db foreign_world))
      = Inr (?bad, None)"
    by code_simp
  then have p': "scroll (client reference_connector) ''memories'' 100 None None True False (db foreign_world)
      = (Inr (?bad, None), snd (scroll (client reference_connector) ''memories'' 100 None None True False
           (db foreign_world)))"
    by (metis prod.collapse)
  have s': "\<not> (\<forall>p \<in> set ?bad. True \<longrightarrow> (\<forall>pl. rec_payload p = Some pl \<longrightarrow> entry_shaped ''metadata'' pl))"
    by (simp add: entry_shaped_def)
  from scroll_keeps_every_point [OF n e' p', of "''metadata''"] s'
  have "fst (scroll_collection ''metadata'' reference_connector (Some ''memories'') 100 None None
               True False foreign_world) = Inr ([], None)"
    by auto
  with good show ?thesis by simp
qed

text \<open>
  Claim C9 as stated fails on a page that holds a point without payload and a point
  whose document is null: building the second entry raises, the handler returns the
  empty list, and the point without payload is dropped with the rest.
\<close>

theorem scroll_drops_page_counterexample:
  "fst (scroll (client reference_connector) ''memories'' 100 None None True False (db foreign_world))
     = Inr ([\<lparr>rec_id = IntId 7, rec_payload = Some []\<rparr>,
             \<lparr>rec_id = IntId 8, rec_payload = Some [(''document'', JNull)]\<rparr>], None) \<and>
   no_payload \<lparr>rec_id = IntId 7, rec_payload = Some []\<rparr> \<and>
   fst (scroll_collection ''metadata'' reference_connector (Some ''memories'') 100 None None True False
          foreign_world) = Inr ([], None)"
  by code_simp

section \<open>Ensuring twice\<close>

text \<open>
  Claim C5. When the service reports the collection absent, the first invocation of
  \<^verbatim>\<open>_ensure_collection_exists\<close> returns, and the service then reports the collection
  as existing, the second invocation returns too; the two together issue exactly one
  creation call, and the second records the existence check and nothing else: no
  creation and no index creation.
\<close>

theorem ensure_twice:
  assumes absent: "reports_absent c n w"
      and first: "ensure_collection_exists c n w = (Inr (), w1)"
      and kept: "collection_exists (client c) (Some n) (db w1) = (Inr True, s)"
  shows "\<exists>w2. ensure_collection_exists c n w1 = (Inr (), w2) \<and>
           events_since w w1 = CollectionExists (Some n) # creation_events c n \<and>
           events_since w1 w2 = [CollectionExists (Some n)] \<and>
           length (filter is_creation (events_since w w2)) = 1 \<and>
           filter is_admin (events_since w1 w2) = []"
proof -
  from ensure_events [OF first] absent
  have t1: "trace w1 = trace w @ CollectionExists (Some n) # creation_events c n"
    by (auto simp: returned_def creation_events_def index_events_def)
  let ?w2 = "w1\<lparr>db := s, trace := trace w1 @ [CollectionExists (Some n)]\<rparr>"
  from kept have second: "ensure_collection_exists c n w1 = (Inr (), ?w2)"
    by (simp add: ensure_collection_exists_def io_bind_def await_client_def io_return_def)
  from t1 have e1: "events_since w w1 = CollectionExists (Some n) # creation_events c n"
    by (rule events_since_append)
  have e2: "events_since w1 ?w2 = [CollectionExists (Some n)]"
    by (simp add: events_since_append)
  from t1 have "trace ?w2 = trace w @
      (CollectionExists (Some n) # creation_events c n @ [CollectionExists (Some n)])"
    by simp
  then have "events_since w ?w2 =
      CollectionExists (Some n) # creation_events c n @ [CollectionExists (Some n)]"
    by (rule events_since_append)
  then have one: "length (filter is_creation (events_since w ?w2)) = 1"
    by (simp add: creation_events_def is_creation_def)
  from e2 have none: "filter is_admin (events_since w1 ?w2) = []"
    by (simp add: admin_simps)
  from second e1 e2 one none show ?thesis by blast
qed

theorem ensure_twice_witness:
  "\<exists>w2. ensure_collection_exists reference_connector ''memories''
           (snd (ensure_collection_exists reference_connector ''memories'' fresh_world)) = (Inr (), w2) \<and>
     length (filter is_creation (events_since fresh_world w2)) = 1"
proof -
  let ?e1 = "ensure_collection_exists reference_connector ''memories'' fresh_world"
  have a: "reports_absent reference_connector ''memories'' fresh_world" by code_simp
  have "fst ?e1 = Inr ()" by code_simp
  then have f: "?e1 = (Inr (), snd ?e1)" by (metis prod.collapse)
  have "fst (collection_exists (client reference_connector) (Some ''memories'') (db (snd ?e1))) = Inr True"
    by code_simp
  then have k: "collection_exists (client reference_connector) (Some ''memories'') (db (snd ?e1))
      = (Inr True, snd (collection_exists (client reference_connector) (Some ''memories'') (db (snd ?e1))))"
    by (metis prod.collapse)
  from ensure_twice [OF a f k] show ?thesis by blast
qed

text \<open>Where the collection is there before the first invocation, neither invocation creates.\<close>

lemma ensure_twice_on_existing:
  "length (filter is_creation (events_since foreign_world
     (snd (ensure_collection_exists reference_connector ''memories''
        (snd (ensure_collection_exists reference_connector ''memories'' foreign_world)))))) = 0"
  by code_simp

section \<open>Round trip\<close>

lemma await_client_Inr:
  assumes "await_client ev f w = (Inr x, w')"
  shows "f (db w) = (Inr x, db w') \<and> trace w' = trace w @ [ev]"
proof -
  obtain r s where fs: "f (db w) = (r, s)" by (cases "f (db w)")
  with assms show ?thesis by (cases r) (auto simp: await_client_def)
qed

lemma await_provider_Inr:
  "await_provider ev r w = (Inr x, w') \<Longrightarrow> r = Inr x \<and> db w' = db w"
  by (cases r) (auto simp: await_provider_def)

lemma store_upserts:
  fixes c :: "'db QdrantConnector"
  assumes name: "resolve_collection_name cn (default_collection_name c) = Some n"
      and run: "store mp c e cn w = (Inr u, w1)"
  shows "\<exists>i v rest. embed_documents (embedding_provider c) [content e] = Inr (v # rest) \<and>
           last (trace w1) =
             Upsert n [\<lparr>point_id = StrId i,
                         point_vector = [(get_vector_name (embedding_provider c), v)],
                         point_payload = make_payload mp (content e) (metadata e)\<rparr>]"
proof -
  let ?vn = "get_vector_name (embedding_provider c)"
  from run have "io_bind (ensure_collection_exists c n) (\<lambda>_.
          io_bind (await_provider (EmbedDocuments [content e])
                     (embed_documents (embedding_provider c) [content e])) (\<lambda>embeddings.
          io_bind uuid4_hex (\<lambda>i.
             io_bind (io_lift (case embeddings of [] \<Rightarrow> Inl IndexError | v # _ \<Rightarrow> Inr v)) (\<lambda>v.
             await_client
               (Upsert n [\<lparr>point_id = StrId i, point_vector = [(?vn, v)],
                            point_payload = make_payload mp (content e) (metadata e)\<rparr>])
               (upsert (client c) n
                  [\<lparr>point_id = StrId i, point_vector = [(?vn, v)],
                            point_payload = make_payload mp (content e) (metadata e)\<rparr>]))))) w
        = (Inr u, w1)"
    unfolding store_def name option.case Let_def .
  then obtain embeddings i v and wa wb wc wd :: "'db world"
    where emb: "await_provider (EmbedDocuments [content e])
                     (embed_documents (embedding_provider c) [content e]) wa = (Inr embeddings, wb)"
      and first: "io_lift (case embeddings of [] \<Rightarrow> Inl IndexError | v # _ \<Rightarrow> Inr v) wc = (Inr v, wd)"
      and up: "await_client
               (Upsert n [\<lparr>point_id = StrId i, point_vector = [(?vn, v)],
                            point_payload = make_payload mp (content e) (metadata e)\<rparr>])
               (upsert (client c) n
                  [\<lparr>point_id = StrId i, point_vector = [(?vn, v)],
                            point_payload = make_payload mp (content e) (metadata e)\<rparr>]) wd = (Inr u, w1)"
    by (elim io_bind_Inr_elim) blast
  from await_provider_Inr [OF emb]
  have e1: "embed_documents (embedding_provider c) [content e] = Inr embeddings" by simp
  from first obtain rest where "embeddings = v # rest"
    by (cases embeddings) (simp_all add: io_lift_def)
  with e1 have "embed_documents (embedding_provider c) [content e] = Inr (v # rest)" by simp
  moreover from await_client_Inr [OF up]
  have "last (trace w1) = Upsert n [\<lparr>point_id = StrId i, point_vector = [(?vn, v)],
                            point_payload = make_payload mp (content e) (metadata e)\<rparr>]"
    by simp
  ultimately show ?thesis by blast
qed

lemma payload_entry_readable:
  "(\<exists>x. payload_entry ''metadata'' r = Inr x) = search_readable r"
  by (auto simp: payload_entry_def search_readable_def make_Entry_def validate_content_def
      validate_metadata_def split: option.splits json.splits sum.splits)

lemma payload_read_back:
  assumes "search_readable r"
      and "rec_payload r = Some (make_payload mp (content e) (metadata e))"
  shows "payload_entry ''metadata'' r = Inr (read_back mp e)"
proof (cases "mp = ''document''")
  case True
  with assms show ?thesis
    by (cases "metadata e") (simp_all add: search_readable_def make_payload_def metadata_json_def)
next
  case False
  with assms(2) show ?thesis
    by (cases "metadata e")
       (auto simp: payload_entry_def make_payload_def metadata_json_def make_Entry_def
          validate_content_def validate_metadata_def read_back_def)
qed

lemma search_entries_readable:
  assumes "\<forall>r \<in> set rs. search_readable r"
  shows "\<exists>es. search_entries rs = Inr es \<and>
           list_all2 (\<lambda>r x. payload_entry ''metadata'' r = Inr x) rs es"
  using assms
proof (induction rs)
  case Nil
  then show ?case by simp
next
  case (Cons r rs)
  from Cons.prems payload_entry_readable [of r] obtain x
    where x: "payload_entry ''metadata'' r = Inr x" by auto
  from Cons obtain es where "search_entries rs = Inr es"
    and "list_all2 (\<lambda>r x. payload_entry ''metadata'' r = Inr x) rs es"
    by auto
  with x have "search_entries (r # rs) = Inr (x # es)"
    and "list_all2 (\<lambda>r x. payload_entry ''metadata'' r = Inr x) (r # rs) (x # es)"
    by simp_all
  then show ?case by blast
qed

lemma search_runs:
  assumes name: "resolve_collection_name cn (default_collection_name c) = Some n"
      and present: "collection_exists (client c) (Some n) (db w) = (Inr True, s1)"
      and embedded: "embed_query (embedding_provider c) query = Inr qv"
      and answer: "query_points (client c) (Some n) qv (get_vector_name (embedding_provider c))
                     limit query_filter None [] s1 = (Inr rs, s2)"
  shows "search c query cn limit query_filter w
           = (search_entries rs,
              w\<lparr>db := s2,
                trace := trace w @
                  [CollectionExists (Some n), EmbedQuery query,
                   QueryPoints (Some n) qv (get_vector_name (embedding_provider c)) limit
                     query_filter None []]\<rparr>)"
  using assms
  by (simp add: search_def Let_def io_bind_def await_client_def await_provider_def io_lift_def)

text \<open>
  Claim C1, amended. A \<^verbatim>\<open>store\<close> of an entry that returns has ended with the upsert
  of one point whose payload holds the content under \<^verbatim>\<open>"document"\<close> and the metadata
  under \<open>METADATA_PATH\<close>. Take a \<^verbatim>\<open>search\<close> for the entry's content for which the
  service reports the collection present, the query is embedded, and the service answers
  the query with points that are all readable, one of them carrying the payload of the
  point that the \<^verbatim>\<open>store\<close> upserted. That \<^verbatim>\<open>search\<close> issues the query with the
  configured limit and filter and returns one entry for each point of the answer, among
  them an entry with the stored content and, when \<open>METADATA_PATH\<close> is the key
  \<^verbatim>\<open>"metadata"\<close> that \<^verbatim>\<open>search\<close> reads, the stored metadata.
\<close>

theorem store_search_round_trip:
  assumes name: "resolve_collection_name cn (default_collection_name c) = Some n"
      and stored: "store mp c e cn w = (Inr (), w1)"
      and present: "collection_exists (client c) (Some n) (db w') = (Inr True, s1)"
      and embedded: "embed_query (embedding_provider c) (content e) = Inr qv"
      and answer: "query_points (client c) (Some n) qv (get_vector_name (embedding_provider c))
                     limit query_filter None [] s1 = (Inr rs, s2)"
      and readable: "\<forall>r \<in> set rs. search_readable r"
      and held: "\<exists>r \<in> set rs. \<exists>p. last (trace w1) = Upsert n [p] \<and>
                   rec_payload r = Some (point_payload p)"
  shows "\<exists>p es. last (trace w1) = Upsert n [p] \<and>
           point_payload p = make_payload mp (content e) (metadata e) \<and>
           fst (search c (content e) cn limit query_filter w') = Inr es \<and>
           events_since w' (snd (search c (content e) cn limit query_filter w'))
             = [CollectionExists (Some n), EmbedQuery (content e),
                QueryPoints (Some n) qv (get_vector_name (embedding_provider c)) limit
                  query_filter None []] \<and>
           length es = length rs \<and>
           read_back mp e \<in> set es"
proof -
  from store_upserts [OF name stored] obtain p
    where p: "last (trace w1) = Upsert n [p]"
      and pl: "point_payload p = make_payload mp (content e) (metadata e)"
    by force
  from held p obtain r where r: "r \<in> set rs" and "rec_payload r = Some (point_payload p)"
    by auto
  with pl have rp: "rec_payload r = Some (make_payload mp (content e) (metadata e))" by simp
  from readable r have "search_readable r" by simp
  from payload_read_back [OF this rp] have rdb: "payload_entry ''metadata'' r = Inr (read_back mp e)" .
  from search_entries_readable [OF readable] obtain es
    where es: "search_entries rs = Inr es"
      and rel: "list_all2 (\<lambda>r x. payload_entry ''metadata'' r = Inr x) rs es"
    by blast
  from r obtain k where k: "k < length rs" and rk: "rs ! k = r"
    by (auto simp: in_set_conv_nth)
  from rel k have "payload_entry ''metadata'' (rs ! k) = Inr (es ! k)" by (rule list_all2_nthD)
  with rk rdb have "es ! k = read_back mp e" by simp
  moreover from rel have len: "length es = length rs" by (simp add: list_all2_lengthD)
  ultimately have mem: "read_back mp e \<in> set es"
    using k by (metis nth_mem)
  from search_runs [OF name present embedded answer] es
  have run: "search c (content e) cn limit query_filter w'
           = (Inr es,
              w'\<lparr>db := s2,
                trace := trace w' @
                  [CollectionExists (Some n), EmbedQuery (content e),
                   QueryPoints (Some n) qv (get_vector_name (embedding_provider c)) limit
                     query_filter None []]\<rparr>)"
    by simp
  then have "fst (search c (content e) cn limit query_filter w') = Inr es"
    and "events_since w' (snd (search c (content e) cn limit query_filter w'))
             = [CollectionExists (Some n), EmbedQuery (content e),
                QueryPoints (Some n) qv (get_vector_name (embedding_provider c)) limit
                  query_filter None []]"
    by (simp_all add: events_since_append)
  with p pl len mem show ?thesis by blast
qed

theorem store_search_round_trip_witness:
  "\<exists>es. fst (search reference_connector ''hello'' (Some ''memories'') 10 None
               (snd (store ''metadata'' reference_connector
                       \<lparr>content = ''hello'', metadata = Some [(''topic'', JString ''greeting'')]\<rparr>
                       (Some ''memories'') fresh_world))) = Inr es \<and>
     \<lparr>content = ''hello'', metadata = Some [(''topic'', JString ''greeting'')]\<rparr> \<in> set es"
proof -
  let ?e = "\<lparr>content = ''hello'', metadata = Some [(''topic'', JString ''greeting'')]\<rparr>"
  let ?st = "store ''metadata'' reference_connector ?e (Some ''memories'') fresh_world"
  let ?ex = "collection_exists (client reference_connector) (Some ''memories'') (db (snd ?st))"
  let ?vn = "get_vector_name (embedding_provider reference_connector)"
  let ?q = "query_points (client reference_connector) (Some ''memories'') [5] ?vn 10 None None [] (snd ?ex)"
  let ?p = "\<lparr>point_id = StrId ''00000000000040008000000000000000'',
             point_vector = [(''fast-all-minilm-l6-v2'', [5])],
             point_payload = [(''document'', JString ''hello''),
                              (''metadata'', JObject [(''topic'', JString ''greeting'')])]\<rparr>"
  let ?r = "\<lparr>rec_id = StrId ''00000000-0000-4000-8000-000000000000'',
             rec_payload = Some [(''document'', JString ''hello''),
                                 (''metadata'', JObject [(''topic'', JString ''greeting'')])],
             score = 0\<rparr>"
  have n: "resolve_collection_name (Some ''memories'') (default_collection_name reference_connector)
             = Some ''memories''"
    by code_simp
  have "fst ?st = Inr ()" by code_simp
  then have st: "?st = (Inr (), snd ?st)" by (metis prod.collapse)
  have "fst ?ex = Inr True" by code_simp
  then have ex: "?ex = (Inr True, snd ?ex)" by (metis prod.collapse)
  have em: "embed_query (embedding_provider reference_connector) (content ?e) = Inr [5]"
    by (simp add: reference_connector_def length_provider_def)
  have "fst ?q = Inr [?r]" by code_simp
  then have q: "?q = (Inr [?r], snd ?q)" by (metis prod.collapse)
  have rd: "\<forall>r \<in> set [?r]. search_readable r" by (simp add: search_readable_def)
  have "last (trace (snd ?st)) = Upsert ''memories'' [?p]" by code_simp
  then have h: "\<exists>r \<in> set [?r]. \<exists>p. last (trace (snd ?st)) = Upsert ''memories'' [p] \<and>
                   rec_payload r = Some (point_payload p)"
    by simp
  have rb: "read_back ''metadata'' ?e = ?e" by (simp add: read_back_def)
  from store_search_round_trip [OF n st ex em q rd h] rb show ?thesis by auto
qed

text \<open>
  Claim C1 as stated fails in a collection that holds a point which cannot be read as an
  entry: the \<^verbatim>\<open>store\<close> returns, and the \<^verbatim>\<open>search\<close> for the stored content raises on
  that other point of the answer instead of returning the stored entry.
\<close>

theorem store_search_round_trip_counterexample:
  "fst (store ''metadata'' reference_connector \<lparr>content = ''hello'', metadata = None\<rparr>
          (Some ''memories'') foreign_world) = Inr () \<and>
   fst (search reference_connector ''hello'' (Some ''memories'') 10 None
          (snd (store ''metadata'' reference_connector \<lparr>content = ''hello'', metadata = None\<rparr>
                  (Some ''memories'') foreign_world))) = Inl ValidationError"
  by code_simp

text \<open>
  Under another metadata key the same round trip loses the metadata: \<^verbatim>\<open>store\<close> writes
  it under that key and \<^verbatim>\<open>search\<close> still reads \<^verbatim>\<open>"metadata"\<close>.
\<close>

lemma metadata_lost_under_other_path:
  "fst (search reference_connector ''hello'' (Some ''memories'') 10 None
          (snd (store ''meta'' reference_connector
                  \<lparr>content = ''hello'', metadata = Some [(''topic'', JString ''greeting'')]\<rparr>
                  (Some ''memories'') fresh_world)))
     = Inr [\<lparr>content = ''hello'', metadata = None\<rparr>]"
  by code_simp

end
